theory Spec2Isabelle
  imports Complex_Main "HOL-Library.Product_Lexorder" "HOL-Library.Multiset"
begin

section \<open>Python values as the loader sees them\<close>

text \<open>
  The loader (\<^verbatim>\<open>import.py\<close>) reads a CSV file with pandas and works on the cells of
  the resulting data frames. A cell is a text, a 64-bit integer or a float; pandas
  represents a missing value by the float NaN. Floats are modelled by their exact
  rational value, plus the two infinities and NaN: rounding, overflow and underflow of
  IEEE arithmetic are not modelled. Characters are ASCII code points.
\<close>

datatype pyfloat = Fin rat | PosInf | NegInf | NaN

datatype cell = Str string | IntV int | FloatV pyfloat

datatype pyerr = ValueError | TypeError | KeyError | IndexError | OverflowError

text \<open>\<^verbatim>\<open>pd.isna(val)\<close> on a scalar.\<close>

definition isna :: "cell \<Rightarrow> bool" where
  "isna c = (c = FloatV NaN)"

text \<open>Truth value of a cell, as \<^verbatim>\<open>not val\<close> tests it: empty text and zero are false.\<close>

definition truthy :: "cell \<Rightarrow> bool" where
  "truthy c = (case c of Str s \<Rightarrow> s \<noteq> [] | IntV i \<Rightarrow> i \<noteq> 0
     | FloatV f \<Rightarrow> f \<noteq> Fin 0)"

subsection \<open>Text operations\<close>

definition py_isspace :: "char \<Rightarrow> bool" where
  "py_isspace c = (let n = (of_char c :: nat) in (9 \<le> n \<and> n \<le> 13) \<or> (28 \<le> n \<and> n \<le> 32))"

definition py_isdigit :: "char \<Rightarrow> bool" where
  "py_isdigit c = (let n = (of_char c :: nat) in 48 \<le> n \<and> n \<le> 57)"

definition digit_val :: "char \<Rightarrow> nat" where
  "digit_val c = (of_char c :: nat) - 48"

definition digit_char :: "nat \<Rightarrow> char" where
  "digit_char d = char_of (48 + d)"

definition lower_char :: "char \<Rightarrow> char" where
  "lower_char c = (let n = (of_char c :: nat) in if 65 \<le> n \<and> n \<le> 90 then char_of (n + 32) else c)"

text \<open>\<^verbatim>\<open>s.strip()\<close> and \<^verbatim>\<open>s.lower()\<close>.\<close>

definition strip :: "string \<Rightarrow> string" where
  "strip s = rev (dropWhile py_isspace (rev (dropWhile py_isspace s)))"

definition lower :: "string \<Rightarrow> string" where
  "lower s = map lower_char s"

text \<open>
  \<^verbatim>\<open>s.split(sep)\<close> for a one-character separator: the pieces between the
  occurrences of the separator, empty pieces included.
\<close>

fun split_acc :: "char \<Rightarrow> string \<Rightarrow> string \<Rightarrow> string list" where
  "split_acc sep cur [] = [rev cur]"
| "split_acc sep cur (c # cs) =
     (if c = sep then rev cur # split_acc sep [] cs else split_acc sep (c # cur) cs)"

definition py_split :: "char \<Rightarrow> string \<Rightarrow> string list" where
  "py_split sep s = split_acc sep [] s"

text \<open>\<^verbatim>\<open>xs[i]\<close> for a non-negative index: IndexError out of range.\<close>

definition py_index :: "'a list \<Rightarrow> nat \<Rightarrow> pyerr + 'a" where
  "py_index xs i = (if i < length xs then Inr (xs ! i) else Inl IndexError)"

subsection \<open>Decimal numerals\<close>

text \<open>
  The digit part of a Python numeral: decimal digits, with single underscores allowed
  between digits.
\<close>

fun digitpart_from :: "bool \<Rightarrow> string \<Rightarrow> bool" where
  "digitpart_from prev_digit [] = prev_digit"
| "digitpart_from prev_digit (c # cs) =
     (if py_isdigit c then digitpart_from True cs
      else if c = CHR ''_'' \<and> prev_digit then digitpart_from False cs
      else False)"

definition digitpart :: "string \<Rightarrow> bool" where
  "digitpart s = digitpart_from False s"

definition digits_value :: "string \<Rightarrow> nat" where
  "digits_value s = foldl (\<lambda>a c. 10 * a + digit_val c) 0 (filter py_isdigit s)"

definition digits_count :: "string \<Rightarrow> nat" where
  "digits_count s = length (filter py_isdigit s)"

text \<open>An optional sign in front of the rest of a numeral.\<close>

definition split_sign :: "string \<Rightarrow> int \<times> string" where
  "split_sign s = (case s of [] \<Rightarrow> (1, [])
     | c # cs \<Rightarrow> if c = CHR ''-'' then (- 1, cs) else if c = CHR ''+'' then (1, cs) else (1, s))"

text \<open>
  \<^verbatim>\<open>int(s)\<close> for a text: surrounding whitespace is ignored, then an optional sign
  and a digit part; anything else raises ValueError.
\<close>

definition int_of_str :: "string \<Rightarrow> pyerr + int" where
  "int_of_str s =
     (let (sg, body) = split_sign (strip s) in
      if digitpart body then Inr (sg * int (digits_value body)) else Inl ValueError)"

text \<open>\<^verbatim>\<open>str(n)\<close> for an integer.\<close>

fun str_nat :: "nat \<Rightarrow> string" where
  "str_nat n = (if n < 10 then [digit_char n] else str_nat (n div 10) @ [digit_char (n mod 10)])"

declare str_nat.simps [simp del]

definition str_int :: "int \<Rightarrow> string" where
  "str_int i = (if i < 0 then CHR ''-'' # str_nat (nat (- i)) else str_nat (nat i))"

subsection \<open>Conversions to float and to integer\<close>

text \<open>
  \<^verbatim>\<open>float(s)\<close> for a text: surrounding whitespace is ignored; after an optional sign
  come \<^verbatim>\<open>inf\<close>, \<^verbatim>\<open>infinity\<close> or \<^verbatim>\<open>nan\<close> in any letter case, or a decimal number
  with an optional fraction and an optional exponent.
\<close>

definition split_at :: "(char \<Rightarrow> bool) \<Rightarrow> string \<Rightarrow> string \<times> string option" where
  "split_at p s = (let a = takeWhile (\<lambda>c. \<not> p c) s; b = dropWhile (\<lambda>c. \<not> p c) s in
     (a, case b of [] \<Rightarrow> None | _ # r \<Rightarrow> Some r))"

definition mantissa :: "string \<Rightarrow> rat option" where
  "mantissa m = (case split_at (\<lambda>c. c = CHR ''.'') m of
       (ip, None) \<Rightarrow> if digitpart ip then Some (of_nat (digits_value ip)) else None
     | (ip, Some fp) \<Rightarrow>
         if (ip = [] \<or> digitpart ip) \<and> (fp = [] \<or> digitpart fp) \<and> \<not> (ip = [] \<and> fp = [])
         then Some (of_nat (digits_value ip) + of_nat (digits_value fp) / 10 ^ digits_count fp)
         else None)"

definition exponent :: "string \<Rightarrow> int option" where
  "exponent e = (let (sg, body) = split_sign e in
     if digitpart body then Some (sg * int (digits_value body)) else None)"

definition pow10 :: "int \<Rightarrow> rat" where
  "pow10 e = (if 0 \<le> e then 10 ^ nat e else 1 / 10 ^ nat (- e))"

definition decimal :: "string \<Rightarrow> rat option" where
  "decimal b = (case split_at (\<lambda>c. c = CHR ''e'' \<or> c = CHR ''E'') b of
       (m, None) \<Rightarrow> mantissa m
     | (m, Some e) \<Rightarrow> (case (mantissa m, exponent e) of
           (Some r, Some k) \<Rightarrow> Some (r * pow10 k) | _ \<Rightarrow> None))"

definition float_of_str :: "string \<Rightarrow> pyerr + pyfloat" where
  "float_of_str s =
     (let (sg, body) = split_sign (strip s) in
      if lower body = ''inf'' \<or> lower body = ''infinity''
        then Inr (if sg < 0 then NegInf else PosInf)
      else if lower body = ''nan'' then Inr NaN
      else (case decimal body of Some r \<Rightarrow> Inr (Fin (of_int sg * r)) | None \<Rightarrow> Inl ValueError))"

text \<open>\<^verbatim>\<open>float(val)\<close> for a cell.\<close>

definition py_float :: "cell \<Rightarrow> pyerr + pyfloat" where
  "py_float c = (case c of Str s \<Rightarrow> float_of_str s | IntV i \<Rightarrow> Inr (Fin (of_int i))
     | FloatV f \<Rightarrow> Inr f)"

text \<open>
  \<^verbatim>\<open>int(x)\<close> for a float truncates towards zero; an infinity raises OverflowError and
  NaN raises ValueError.
\<close>

definition int_of_float :: "pyfloat \<Rightarrow> pyerr + int" where
  "int_of_float f = (case f of Fin r \<Rightarrow> Inr (if 0 \<le> r then \<lfloor>r\<rfloor> else \<lceil>r\<rceil>)
     | PosInf \<Rightarrow> Inl OverflowError | NegInf \<Rightarrow> Inl OverflowError | NaN \<Rightarrow> Inl ValueError)"

definition py_int :: "cell \<Rightarrow> pyerr + int" where
  "py_int c = (case c of Str s \<Rightarrow> int_of_str s | IntV i \<Rightarrow> Inr i | FloatV f \<Rightarrow> int_of_float f)"

text \<open>\<^verbatim>\<open>x <= 0\<close> for a float: false for NaN.\<close>

definition le_zero :: "pyfloat \<Rightarrow> bool" where
  "le_zero f = (case f of Fin r \<Rightarrow> r \<le> 0 | PosInf \<Rightarrow> False | NegInf \<Rightarrow> True | NaN \<Rightarrow> False)"

section \<open>Natural keys\<close>

text \<open>
  \<^verbatim>\<open>safe_convert_to_int(val)\<close>: None for a missing value; otherwise the text of the value
  is stripped and lower-cased, one leading \<^verbatim>\<open>x\<close> is removed, and the rest goes to
  \<^verbatim>\<open>int\<close>, whose ValueError or TypeError becomes None. The text of a float always
  holds a point, an exponent or letters (\<^verbatim>\<open>1.0\<close>, \<^verbatim>\<open>1e+22\<close>, \<^verbatim>\<open>inf\<close>), so \<^verbatim>\<open>int\<close>
  rejects it: the model says so directly instead of printing the float.
\<close>

definition clean_key :: "string \<Rightarrow> string" where
  "clean_key s = (let cleaned = lower (strip s) in
     case cleaned of [] \<Rightarrow> cleaned | c # cs \<Rightarrow> if c = CHR ''x'' then cs else cleaned)"

definition safe_convert_to_int :: "cell \<Rightarrow> int option" where
  "safe_convert_to_int val =
     (if isna val then None
      else case val of
          FloatV f \<Rightarrow> None
        | Str s \<Rightarrow> (case int_of_str (clean_key s) of Inr n \<Rightarrow> Some n | Inl e \<Rightarrow> None)
        | IntV i \<Rightarrow> (case int_of_str (clean_key (str_int i)) of Inr n \<Rightarrow> Some n | Inl e \<Rightarrow> None))"

section \<open>Rows, dimension cache and fact records\<close>

text \<open>
  The Date column is read with \<^verbatim>\<open>parse_dates\<close>: a cell is a timestamp or, where the
  file has no date, NaT. The file's dates carry no time of day. \<^verbatim>\<open>.year\<close> of NaT is NaN,
  and \<^verbatim>\<open>str\<close> of a date is its ISO form.
\<close>

datatype timestamp = Timestamp nat nat nat | NaT

definition year_of :: "timestamp \<Rightarrow> cell" where
  "year_of d = (case d of Timestamp y m dd \<Rightarrow> IntV (int y) | NaT \<Rightarrow> FloatV NaN)"

definition zfill :: "nat \<Rightarrow> string \<Rightarrow> string" where
  "zfill w s = replicate (w - length s) (CHR ''0'') @ s"

definition str_date :: "timestamp \<Rightarrow> string" where
  "str_date d = (case d of
       Timestamp y m dd \<Rightarrow> zfill 4 (str_nat y) @ ''-'' @ zfill 2 (str_nat m) @ ''-'' @ zfill 2 (str_nat dd)
     | NaT \<Rightarrow> ''NaT'')"

record row =
  Date :: timestamp
  Invoice_Item_Number :: cell
  State_Bottle_Cost :: cell
  State_Bottle_Retail :: cell
  Bottles_Sold :: cell
  Sale_Dollars :: cell
  Volume_Sold_Liters :: cell
  Volume_Sold_Gallons :: cell
  Store_Number :: cell
  Vendor_Number :: cell
  Item_Number :: cell

record DimensionCache =
  date_cache :: "string \<rightharpoonup> int"
  store_cache :: "int \<rightharpoonup> int"
  product_cache :: "int \<rightharpoonup> int"
  vendor_cache :: "int \<rightharpoonup> int"

record fact =
  date_key :: int
  year :: cell
  store_key :: int
  product_key :: int
  vendor_key :: int
  invoice_item_number :: cell
  state_bottle_cost :: pyfloat
  state_bottle_retail :: pyfloat
  bottles_sold :: int
  sale_dollars :: pyfloat
  volume_sold_liters :: pyfloat
  volume_sold_gallons :: pyfloat

section \<open>The global invoice tracker\<close>

text \<open>
  \<^verbatim>\<open>GLOBAL_INVOICE_TRACKER\<close> is a dict from the tuple (invoice identifier, year) to True.
  Python holds \<^verbatim>\<open>1\<close> and \<^verbatim>\<open>1.0\<close> as one key, so a key component is the cell with an
  integer replaced by the float of the same value. The NaN year of NaT is the one object
  \<^verbatim>\<open>np.nan\<close>, which a dict finds by its identity: in a key, NaN stands for that object.
\<close>

type_synonym invoice_key = "cell \<times> cell"

type_synonym tracker = "invoice_key \<rightharpoonup> bool"

definition dict_key :: "cell \<Rightarrow> cell" where
  "dict_key c = (case c of IntV i \<Rightarrow> FloatV (Fin (of_int i)) | _ \<Rightarrow> c)"

text \<open>
  \<^verbatim>\<open>check_existing_invoices\<close>: every (invoice_item_number, year) row of \<^verbatim>\<open>fact_sales\<close>
  is entered into the tracker.
\<close>

definition check_existing_invoices :: "(cell \<times> cell) list \<Rightarrow> tracker \<Rightarrow> tracker" where
  "check_existing_invoices fact_sales_rows trk =
     fold (\<lambda>(invoice_item_number, year) t. t((dict_key invoice_item_number, dict_key year) \<mapsto> True))
       fact_sales_rows trk"

section \<open>process\_chunk\<close>

record chunk_state =
  tracker :: tracker
  fact_records :: "fact list"
  missing_products :: "int set"
  missing_vendors :: "int set"
  missing_stores :: "int set"
  chunk_seen_invoices :: "invoice_key set"
  duplicate_count :: nat

definition bind_err :: "pyerr + 'a \<Rightarrow> ('a \<Rightarrow> pyerr + 'b) \<Rightarrow> pyerr + 'b" where
  "bind_err m f = (case m of Inl e \<Rightarrow> Inl e | Inr x \<Rightarrow> f x)"

text \<open>
  \<^verbatim>\<open>any(pd.isna(val) or float(val) <= 0 for val in required_numeric_fields.values())\<close>:
  the values are tested in order, and \<^verbatim>\<open>float\<close> of a text that is no number raises.
\<close>

fun any_invalid :: "cell list \<Rightarrow> pyerr + bool" where
  "any_invalid [] = Inr False"
| "any_invalid (val # vals) =
     (if isna val then Inr True
      else case py_float val of
          Inl e \<Rightarrow> Inl e
        | Inr f \<Rightarrow> if le_zero f then Inr True else any_invalid vals)"

definition required_numeric_fields :: "row \<Rightarrow> cell list" where
  "required_numeric_fields r =
     [State_Bottle_Cost r, State_Bottle_Retail r, Bottles_Sold r, Sale_Dollars r,
      Volume_Sold_Liters r, Volume_Sold_Gallons r]"

text \<open>\<^verbatim>\<open>not key\<close> for the result of \<^verbatim>\<open>dict.get\<close>: None and 0 are both false.\<close>

definition resolved :: "int option \<Rightarrow> bool" where
  "resolved k = (case k of None \<Rightarrow> False | Some v \<Rightarrow> v \<noteq> 0)"

text \<open>The dict appended to \<^verbatim>\<open>fact_records\<close>; its conversions run in the order written.\<close>

definition build_fact :: "int \<Rightarrow> cell \<Rightarrow> int \<Rightarrow> int \<Rightarrow> int \<Rightarrow> row \<Rightarrow> pyerr + fact" where
  "build_fact dk yr sk pk vk r =
     bind_err (py_float (State_Bottle_Cost r)) (\<lambda>cost.
     bind_err (py_float (State_Bottle_Retail r)) (\<lambda>retail.
     bind_err (py_int (Bottles_Sold r)) (\<lambda>bottles.
     bind_err (py_float (Sale_Dollars r)) (\<lambda>sale.
     bind_err (py_float (Volume_Sold_Liters r)) (\<lambda>liters.
     bind_err (py_float (Volume_Sold_Gallons r)) (\<lambda>gallons.
       Inr \<lparr>date_key = dk, year = yr, store_key = sk, product_key = pk, vendor_key = vk,
            invoice_item_number = Invoice_Item_Number r,
            state_bottle_cost = cost, state_bottle_retail = retail, bottles_sold = bottles,
            sale_dollars = sale, volume_sold_liters = liters,
            volume_sold_gallons = gallons\<rparr>))))))"

text \<open>
  What the loop body does with a row once its invoice key is claimed (the source from
  ``Skip if required numeric fields are missing or invalid'' to the append): the row is
  skipped, or one of its natural keys is recorded as missing, or a fact record is appended,
  or an exception is raised.
\<close>

datatype row_result =
    Skipped
  | Missing_Store int
  | Missing_Vendor int
  | Missing_Product int
  | Append fact
  | Raised pyerr

definition transform_row :: "DimensionCache \<Rightarrow> row \<Rightarrow> row_result" where
  "transform_row cache r =
     (case any_invalid (required_numeric_fields r) of
        Inl e \<Rightarrow> Raised e
      | Inr True \<Rightarrow> Skipped
      | Inr False \<Rightarrow>
          (case (safe_convert_to_int (Store_Number r), safe_convert_to_int (Vendor_Number r),
                 safe_convert_to_int (Item_Number r)) of
             (Some store_number, Some vendor_number, Some item_number) \<Rightarrow>
               (let store_key = store_cache cache store_number;
                    vendor_key = vendor_cache cache vendor_number;
                    product_key = product_cache cache item_number;
                    date_key = date_cache cache (str_date (Date r))
                in if \<not> resolved store_key then Missing_Store store_number
                   else if \<not> resolved vendor_key then Missing_Vendor vendor_number
                   else if \<not> resolved product_key then Missing_Product item_number
                   else if \<not> resolved date_key then Skipped
                   else (case (date_key, store_key, product_key, vendor_key) of
                           (Some dk, Some sk, Some pk, Some vk) \<Rightarrow>
                             (case build_fact dk (year_of (Date r)) sk pk vk r of
                                Inl e \<Rightarrow> Raised e
                              | Inr f \<Rightarrow> Append f)
                         | _ \<Rightarrow> Skipped))
           | _ \<Rightarrow> Skipped))"

definition apply_result :: "row_result \<Rightarrow> chunk_state \<Rightarrow> chunk_state \<times> pyerr option" where
  "apply_result res st = (case res of
       Skipped \<Rightarrow> (st, None)
     | Missing_Store n \<Rightarrow> (st\<lparr>missing_stores := insert n (missing_stores st)\<rparr>, None)
     | Missing_Vendor n \<Rightarrow> (st\<lparr>missing_vendors := insert n (missing_vendors st)\<rparr>, None)
     | Missing_Product n \<Rightarrow> (st\<lparr>missing_products := insert n (missing_products st)\<rparr>, None)
     | Append f \<Rightarrow> (st\<lparr>fact_records := fact_records st @ [f]\<rparr>, None)
     | Raised e \<Rightarrow> (st, Some e))"

text \<open>
  The body of the \<^verbatim>\<open>try\<close> for one row: the state when the body ends, and the exception
  it ends with, if any.
\<close>

definition row_body :: "DimensionCache \<Rightarrow> row \<Rightarrow> chunk_state \<Rightarrow> chunk_state \<times> pyerr option" where
  "row_body cache r st =
     (let year = year_of (Date r);
          invoice_item_number = Invoice_Item_Number r
      in if isna invoice_item_number \<or> \<not> truthy invoice_item_number then (st, None)
         else let invoice_key = (dict_key invoice_item_number, dict_key year)
           in if invoice_key \<in> chunk_seen_invoices st then (st, None)
              else if invoice_key \<in> dom (tracker st)
                then (st\<lparr>duplicate_count := duplicate_count st + 1\<rparr>, None)
              else apply_result (transform_row cache r)
                     (st\<lparr>chunk_seen_invoices := insert invoice_key (chunk_seen_invoices st),
                         tracker := (tracker st)(invoice_key \<mapsto> True)\<rparr>))"

text \<open>
  The \<^verbatim>\<open>except\<close> clauses: ValueError, TypeError and KeyError end the row and the loop
  goes on; any other exception leaves the loop and the function.
\<close>

definition process_row :: "DimensionCache \<Rightarrow> row \<Rightarrow> chunk_state \<Rightarrow> chunk_state \<times> pyerr option" where
  "process_row cache r st = (case row_body cache r st of
       (st', None) \<Rightarrow> (st', None)
     | (st', Some e) \<Rightarrow>
         if e = ValueError \<or> e = TypeError \<or> e = KeyError then (st', None) else (st', Some e))"

fun process_rows :: "DimensionCache \<Rightarrow> row list \<Rightarrow> chunk_state \<Rightarrow> chunk_state \<times> pyerr option" where
  "process_rows cache [] st = (st, None)"
| "process_rows cache (r # rs) st = (case process_row cache r st of
       (st', None) \<Rightarrow> process_rows cache rs st'
     | (st', Some e) \<Rightarrow> (st', Some e))"

text \<open>
  \<^verbatim>\<open>chunk.sort_values('Date')\<close>: ascending dates, NaT last. pandas sorts with quicksort,
  which leaves the order of rows with equal dates open: what the call may return is any
  arrangement of the rows of the chunk in ascending order of date (\<open>date_sorted\<close>).
  \<open>sort_values\<close> is the arrangement in which rows with equal dates keep the order of
  the chunk. What depends on the order of rows with equal dates is stated for
  \<open>process_rows\<close> on every arrangement that is \<open>date_sorted\<close>.
\<close>

definition date_rank :: "timestamp \<Rightarrow> bool \<times> nat \<times> nat \<times> nat" where
  "date_rank d = (case d of Timestamp y m dd \<Rightarrow> (False, y, m, dd) | NaT \<Rightarrow> (True, 0, 0, 0))"

definition date_sorted :: "row list \<Rightarrow> row list \<Rightarrow> bool" where
  "date_sorted chunk rs = (mset rs = mset chunk \<and> sorted (map (\<lambda>r. date_rank (Date r)) rs))"

definition sort_values :: "row list \<Rightarrow> row list" where
  "sort_values chunk = sort_key (\<lambda>r. date_rank (Date r)) chunk"

definition initial_state :: "tracker \<Rightarrow> chunk_state" where
  "initial_state trk =
     \<lparr>tracker = trk, fact_records = [], missing_products = {}, missing_vendors = {},
      missing_stores = {}, chunk_seen_invoices = {}, duplicate_count = 0\<rparr>"

definition process_chunk_state :: "tracker \<Rightarrow> DimensionCache \<Rightarrow> row list \<Rightarrow> chunk_state \<times> pyerr option" where
  "process_chunk_state trk cache chunk = process_rows cache (sort_values chunk) (initial_state trk)"

text \<open>
  \<^verbatim>\<open>process_chunk(chunk, cache)\<close>: the tracker as the call leaves it, and the list it
  returns or the exception it raises.
\<close>

definition process_chunk :: "tracker \<Rightarrow> DimensionCache \<Rightarrow> row list \<Rightarrow> tracker \<times> (pyerr + fact list)" where
  "process_chunk trk cache chunk = (case process_chunk_state trk cache chunk of
       (st, None) \<Rightarrow> (tracker st, Inr (fact_records st))
     | (st, Some e) \<Rightarrow> (tracker st, Inl e))"

text \<open>
  For the statements about \<^verbatim>\<open>process_chunk\<close>: whether a row passes the test ``Skip if
  missing or invalid invoice'', the invoice key it then has, and the invoice key of a
  fact record.
\<close>

definition has_invoice :: "row \<Rightarrow> bool" where
  "has_invoice r = (\<not> isna (Invoice_Item_Number r) \<and> truthy (Invoice_Item_Number r))"

definition row_key :: "row \<Rightarrow> invoice_key" where
  "row_key r = (dict_key (Invoice_Item_Number r), dict_key (year_of (Date r)))"

definition fact_key :: "fact \<Rightarrow> invoice_key" where
  "fact_key f = (dict_key (invoice_item_number f), dict_key (year f))"

text \<open>The fact record a row gives once its key is claimed, if it gives one.\<close>

definition fact_of_row :: "DimensionCache \<Rightarrow> row \<Rightarrow> fact option" where
  "fact_of_row cache r = (case transform_row cache r of Append f \<Rightarrow> Some f | _ \<Rightarrow> None)"

section \<open>Validation of the dimension cache\<close>

text \<open>
  The dimension tables as \<^verbatim>\<open>main\<close> reads them: \<^verbatim>\<open>dim_date\<close> as rows
  (date\_key, date), and the other three as rows (surrogate key, natural key). The date
  column holds dates, so \<^verbatim>\<open>MIN(date)\<close> and \<^verbatim>\<open>MAX(date)\<close> are None exactly when the
  table has no row, and are true values otherwise.
\<close>

record warehouse =
  dim_date :: "(int \<times> timestamp) list"
  dim_product :: "(int \<times> int) list"
  dim_store :: "(int \<times> int) list"
  dim_vendor :: "(int \<times> int) list"

text \<open>
  ``Load dimension caches'' in \<^verbatim>\<open>main\<close>: each row of a table is entered into the
  cache under its natural key (a date under its text), a later row replacing an earlier
  one with the same natural key.
\<close>

definition load_caches :: "warehouse \<Rightarrow> DimensionCache" where
  "load_caches w =
     \<lparr>date_cache = fold (\<lambda>(date_key, date) m. m(str_date date \<mapsto> date_key)) (dim_date w) Map.empty,
      store_cache = fold (\<lambda>(store_key, store_number) m. m(store_number \<mapsto> store_key)) (dim_store w) Map.empty,
      product_cache = fold (\<lambda>(product_key, item_number) m. m(item_number \<mapsto> product_key)) (dim_product w) Map.empty,
      vendor_cache = fold (\<lambda>(vendor_key, vendor_number) m. m(vendor_number \<mapsto> vendor_key)) (dim_vendor w) Map.empty\<rparr>"

text \<open>
  \<^verbatim>\<open>validate_date_keys\<close>: inside \<^verbatim>\<open>if min_date and max_date\<close>, the rows are read into
  \<^verbatim>\<open>dict(cur.fetchall())\<close>, keyed by date\_key, and the size of this dict is compared with
  the size of the date cache.
\<close>

definition validate_date_keys :: "warehouse \<Rightarrow> DimensionCache \<Rightarrow> pyerr + unit" where
  "validate_date_keys w cache =
     (if dim_date w \<noteq> [] then
        (let db_dates = map_of (dim_date w)
         in if card (dom db_dates) \<noteq> card (dom (date_cache cache)) then Inl ValueError else Inr ())
      else Inr ())"

text \<open>\<^verbatim>\<open>validate_product_cache\<close>: \<^verbatim>\<open>COUNT(*)\<close> against the size of the product cache.\<close>

definition validate_product_cache :: "warehouse \<Rightarrow> DimensionCache \<Rightarrow> pyerr + unit" where
  "validate_product_cache w cache =
     (let db_count = length (dim_product w)
      in if card (dom (product_cache cache)) \<noteq> db_count then Inl ValueError else Inr ())"

text \<open>The two calls as \<^verbatim>\<open>main\<close> makes them, under ``Validate caches''.\<close>

definition validate_caches :: "warehouse \<Rightarrow> DimensionCache \<Rightarrow> pyerr + unit" where
  "validate_caches w cache =
     bind_err (validate_date_keys w cache) (\<lambda>_. validate_product_cache w cache)"

section \<open>Checkpoints of the tracker\<close>

text \<open>
  The checkpoint directory is absent, or holds files in the order \<^verbatim>\<open>os.listdir\<close> gives
  them. A file holds a pickled tracker, or bytes that \<^verbatim>\<open>pickle.load\<close> rejects.
\<close>

datatype file_content = Pickled tracker | Corrupt

text \<open>
  \<^verbatim>\<open>pickle.load\<close> of a pickled tracker builds the dict anew, with new float objects. A
  NaN in a key is then no longer the object \<^verbatim>\<open>np.nan\<close>, and NaN is unequal to every
  other NaN, so no key that the program forms finds that entry again. The loaded dict is
  given by the entries a membership test can find: those whose key has no NaN.
\<close>

definition has_nan :: "invoice_key \<Rightarrow> bool" where
  "has_nan k = (fst k = FloatV NaN \<or> snd k = FloatV NaN)"

definition unpickled :: "tracker \<Rightarrow> tracker" where
  "unpickled trk = (\<lambda>k. if has_nan k then None else trk k)"

type_synonym directory = "(string \<times> file_content) list"

text \<open>What happens to the write inside the \<^verbatim>\<open>try\<close> of \<^verbatim>\<open>save_tracker_checkpoint\<close>.\<close>

datatype write_outcome = Written | Open_Failed | Dump_Failed

definition write_file :: "string \<Rightarrow> file_content \<Rightarrow> directory \<Rightarrow> directory" where
  "write_file name content d =
     (if name \<in> fst ` set d then map (\<lambda>(n, c). if n = name then (n, content) else (n, c)) d
      else d @ [(name, content)])"

definition checkpoint_name :: "int \<Rightarrow> string" where
  "checkpoint_name t = ''invoice_tracker_'' @ str_int t @ ''.pkl''"

text \<open>
  \<^verbatim>\<open>save_tracker_checkpoint\<close> at the time \<open>now = int(time.time())\<close>: the directory is
  created if absent; the file is written, or the failure is logged and swallowed. A failed
  \<^verbatim>\<open>open\<close> leaves the directory as it is, a failed \<^verbatim>\<open>pickle.dump\<close> leaves a file
  that cannot be loaded.
\<close>

definition save_tracker_checkpoint :: "int \<Rightarrow> write_outcome \<Rightarrow> tracker \<Rightarrow> directory option \<Rightarrow> directory option" where
  "save_tracker_checkpoint now outcome trk fs =
     (let d = (case fs of None \<Rightarrow> [] | Some d \<Rightarrow> d);
          checkpoint_file = checkpoint_name now
      in case outcome of
           Written \<Rightarrow> Some (write_file checkpoint_file (Pickled trk) d)
         | Dump_Failed \<Rightarrow> Some (write_file checkpoint_file Corrupt d)
         | Open_Failed \<Rightarrow> Some d)"

definition startswith :: "string \<Rightarrow> string \<Rightarrow> bool" where
  "startswith s p = (take (length p) s = p)"

definition endswith :: "string \<Rightarrow> string \<Rightarrow> bool" where
  "endswith s p = (length p \<le> length s \<and> drop (length s - length p) s = p)"

definition is_checkpoint_file :: "string \<Rightarrow> bool" where
  "is_checkpoint_file f = (startswith f ''invoice_tracker_'' \<and> endswith f ''.pkl'')"

text \<open>The key of \<^verbatim>\<open>max\<close>: \<^verbatim>\<open>int(f.split('_')[2].split('.')[0])\<close>.\<close>

definition checkpoint_id :: "string \<Rightarrow> pyerr + int" where
  "checkpoint_id f =
     bind_err (py_index (py_split (CHR ''_'') f) 2) (\<lambda>part.
     bind_err (py_index (py_split (CHR ''.'') part) 0) int_of_str)"

text \<open>
  \<^verbatim>\<open>max(xs, key=...)\<close> on a list that is not empty: the key of every element is
  computed, in order, and the first element with the greatest key is returned.
\<close>

fun keys_of :: "('a \<Rightarrow> pyerr + int) \<Rightarrow> 'a list \<Rightarrow> pyerr + ('a \<times> int) list" where
  "keys_of key [] = Inr []"
| "keys_of key (x # xs) =
     bind_err (key x) (\<lambda>k. bind_err (keys_of key xs) (\<lambda>ks. Inr ((x, k) # ks)))"

fun first_max :: "'a \<times> int \<Rightarrow> ('a \<times> int) list \<Rightarrow> 'a" where
  "first_max best [] = fst best"
| "first_max best (xk # xks) = first_max (if snd best < snd xk then xk else best) xks"

definition py_max :: "('a \<Rightarrow> pyerr + int) \<Rightarrow> 'a list \<Rightarrow> pyerr + 'a" where
  "py_max key xs = bind_err (keys_of key xs) (\<lambda>xks.
     case xks of [] \<Rightarrow> Inl ValueError | xk # rest \<Rightarrow> Inr (first_max xk rest))"

text \<open>
  \<^verbatim>\<open>load_tracker_checkpoint\<close>: the tracker after the call and the flag returned, or the
  exception raised by the choice of the latest file, which stands outside the \<^verbatim>\<open>try\<close>.
\<close>

definition load_tracker_checkpoint :: "directory option \<Rightarrow> tracker \<Rightarrow> pyerr + (tracker \<times> bool)" where
  "load_tracker_checkpoint fs trk =
     (case fs of
        None \<Rightarrow> Inr (trk, False)
      | Some d \<Rightarrow>
          (let checkpoint_files = filter is_checkpoint_file (map fst d)
           in if checkpoint_files = [] then Inr (trk, False)
              else bind_err (py_max checkpoint_id checkpoint_files) (\<lambda>latest_checkpoint.
                     case map_of d latest_checkpoint of
                       Some (Pickled pickled) \<Rightarrow> Inr (unpickled pickled, True)
                     | _ \<Rightarrow> Inr (trk, False))))"

section \<open>Products\<close>

record product_row =
  P_Item_Number :: cell
  P_Item_Description :: cell
  P_Category :: cell
  P_Category_Name :: cell
  P_Pack :: cell
  P_Bottle_Volume_ml :: cell

text \<open>
  A tuple of \<^verbatim>\<open>product_records\<close>. The description and the category name are the cells
  whose text \<^verbatim>\<open>str\<close> gives; \<^verbatim>\<open>str\<close> raises nothing.
\<close>

record product_record =
  item_number :: int
  item_description :: cell
  category_number :: int
  category_name :: cell
  pack :: int
  bottle_volume_ml :: int

definition fillna :: "cell \<Rightarrow> cell \<Rightarrow> cell" where
  "fillna v c = (if isna c then v else c)"

text \<open>
  An element of \<^verbatim>\<open>df['Bottle Volume (ml)'] <= 0\<close>: a text cannot be compared with a
  number.
\<close>

definition cell_le_zero :: "cell \<Rightarrow> pyerr + bool" where
  "cell_le_zero c = (case c of Str s \<Rightarrow> Inl TypeError | IntV i \<Rightarrow> Inr (i \<le> 0)
     | FloatV f \<Rightarrow> Inr (le_zero f))"

definition fix_volume :: "product_row \<Rightarrow> pyerr + product_row" where
  "fix_volume r = bind_err (cell_le_zero (P_Bottle_Volume_ml r)) (\<lambda>b.
     Inr (if b then r\<lparr>P_Bottle_Volume_ml := IntV 750\<rparr> else r))"

fun map_err :: "('a \<Rightarrow> pyerr + 'b) \<Rightarrow> 'a list \<Rightarrow> pyerr + 'b list" where
  "map_err f [] = Inr []"
| "map_err f (x # xs) = bind_err (f x) (\<lambda>y. bind_err (map_err f xs) (\<lambda>ys. Inr (y # ys)))"

text \<open>\<^verbatim>\<open>int(float(val))\<close>.\<close>

definition int_float :: "cell \<Rightarrow> pyerr + int" where
  "int_float c = bind_err (py_float c) int_of_float"

text \<open>The body of the \<^verbatim>\<open>try\<close> that turns one row into a product record.\<close>

definition product_of_row :: "product_row \<Rightarrow> pyerr + product_record" where
  "product_of_row r =
     bind_err (case P_Item_Number r of
                 Str s \<Rightarrow> if startswith s ''x'' then int_of_str (tl s) else int_float (Str s)
               | c \<Rightarrow> int_float c) (\<lambda>item.
     bind_err (if \<not> isna (P_Category r) then int_float (P_Category r) else Inr 0) (\<lambda>category.
     bind_err (if \<not> isna (P_Pack r) then int_float (P_Pack r) else Inr 1) (\<lambda>pk.
     bind_err (int_float (P_Bottle_Volume_ml r)) (\<lambda>bottle_volume.
       Inr \<lparr>item_number = item, item_description = P_Item_Description r,
            category_number = category, category_name = P_Category_Name r,
            pack = pk, bottle_volume_ml = bottle_volume\<rparr>))))"

text \<open>
  The loop over the rows: ValueError and TypeError skip the row, any other exception
  leaves the function.
\<close>

fun product_rows :: "product_row list \<Rightarrow> pyerr + product_record list" where
  "product_rows [] = Inr []"
| "product_rows (r # rs) = (case product_of_row r of
       Inr p \<Rightarrow> bind_err (product_rows rs) (\<lambda>ps. Inr (p # ps))
     | Inl e \<Rightarrow> if e = ValueError \<or> e = TypeError then product_rows rs else Inl e)"

text \<open>
  \<^verbatim>\<open>process_all_products\<close>: the records handed to the upsert into \<^verbatim>\<open>dim_product\<close>, or
  the exception raised before the upsert.
\<close>

definition process_all_products :: "product_row list \<Rightarrow> pyerr + product_record list" where
  "process_all_products df =
     (if df = [] then Inr []
      else let filled = map (\<lambda>r. r\<lparr>P_Category := fillna (IntV 0) (P_Category r),
                                    P_Category_Name := fillna (Str ''Uncategorized'') (P_Category_Name r),
                                    P_Pack := fillna (IntV 1) (P_Pack r),
                                    P_Bottle_Volume_ml := fillna (IntV 750) (P_Bottle_Volume_ml r)\<rparr>) df
           in bind_err (map_err fix_volume filled) product_rows)"

section \<open>Sample data\<close>

text \<open>
  A cache with two dates and one store, product and vendor, and a row of the file that
  resolves in it. The statements below are instantiated on variations of this row.
\<close>

definition sample_cache :: DimensionCache where
  "sample_cache =
     \<lparr>date_cache = [''2020-01-03'' \<mapsto> 5, ''2020-01-05'' \<mapsto> 7], store_cache = [2 \<mapsto> 20],
      product_cache = [3 \<mapsto> 30], vendor_cache = [4 \<mapsto> 40]\<rparr>"

definition sample_row :: row where
  "sample_row =
     \<lparr>Date = Timestamp 2020 1 5, Invoice_Item_Number = Str ''INV100'',
      State_Bottle_Cost = FloatV (Fin 9), State_Bottle_Retail = FloatV (Fin 13),
      Bottles_Sold = IntV 6, Sale_Dollars = FloatV (Fin 78),
      Volume_Sold_Liters = FloatV (Fin (9 / 2)), Volume_Sold_Gallons = FloatV (Fin (6 / 5)),
      Store_Number = Str ''2'', Vendor_Number = Str ''4'', Item_Number = Str ''x3''\<rparr>"

definition sample_fact :: fact where
  "sample_fact =
     \<lparr>date_key = 7, year = IntV 2020, store_key = 20, product_key = 30, vendor_key = 40,
      invoice_item_number = Str ''INV100'', state_bottle_cost = Fin 9,
      state_bottle_retail = Fin 13, bottles_sold = 6, sale_dollars = Fin 78,
      volume_sold_liters = Fin (9 / 2), volume_sold_gallons = Fin (6 / 5)\<rparr>"

definition sample_warehouse :: warehouse where
  "sample_warehouse =
     \<lparr>dim_date = [(5, Timestamp 2020 1 3), (7, Timestamp 2020 1 5)], dim_product = [(30, 3)],
      dim_store = [(20, 2)], dim_vendor = [(40, 4)]\<rparr>"

definition sample_product :: product_row where
  "sample_product =
     \<lparr>P_Item_Number = Str ''x946'', P_Item_Description = Str ''Whisky'',
      P_Category = IntV 1011100, P_Category_Name = FloatV NaN, P_Pack = IntV 12,
      P_Bottle_Volume_ml = IntV 750\<rparr>"

definition sample_product_record :: product_record where
  "sample_product_record =
     \<lparr>item_number = 946, item_description = Str ''Whisky'', category_number = 1011100,
      category_name = Str ''Uncategorized'', pack = 12, bottle_volume_ml = 750\<rparr>"

definition sample_tracker :: tracker where
  "sample_tracker = [(Str ''INV100'', FloatV (Fin 2020)) \<mapsto> True]"

definition sample_directory :: directory where
  "sample_directory = [(''invoice_tracker_3.pkl'', Pickled Map.empty), (''notes.txt'', Corrupt)]"

section \<open>Properties of the text and number conversions\<close>

lemma of_char_digit_char: "d < 10 \<Longrightarrow> (of_char (digit_char d) :: nat) = 48 + d"
  by (simp add: digit_char_def)

lemma isdigit_digit_char: "d < 10 \<Longrightarrow> py_isdigit (digit_char d)"
  by (simp add: py_isdigit_def of_char_digit_char)

lemma digit_val_digit_char: "d < 10 \<Longrightarrow> digit_val (digit_char d) = d"
  by (simp add: digit_val_def of_char_digit_char)

lemma isdigit_not_space: "py_isdigit c \<Longrightarrow> \<not> py_isspace c"
  by (auto simp: py_isdigit_def py_isspace_def Let_def)

lemma isdigit_lower: "py_isdigit c \<Longrightarrow> lower_char c = c"
  by (auto simp: py_isdigit_def lower_char_def Let_def)

lemma isdigit_not_sign: "py_isdigit c \<Longrightarrow> c \<noteq> CHR ''-'' \<and> c \<noteq> CHR ''+'' \<and> c \<noteq> CHR ''x'' \<and> c \<noteq> CHR ''_''"
  by (auto simp: py_isdigit_def)

lemma str_nat_digits: "c \<in> set (str_nat n) \<Longrightarrow> py_isdigit c"
proof (induction n arbitrary: c rule: str_nat.induct)
  case (1 n)
  show ?case
  proof (cases "n < 10")
    case True
    with "1.prems" show ?thesis
      by (subst (asm) str_nat.simps) (simp add: isdigit_digit_char)
  next
    case False
    with "1.prems" have "c \<in> set (str_nat (n div 10)) \<or> c = digit_char (n mod 10)"
      by (subst (asm) str_nat.simps) auto
    with False "1.IH" show ?thesis by (auto simp: isdigit_digit_char)
  qed
qed

lemma str_nat_nonempty: "str_nat n \<noteq> []"
  by (subst str_nat.simps) simp

lemma digitpart_from_digits:
  "\<forall>c \<in> set s. py_isdigit c \<Longrightarrow> digitpart_from b s = (b \<or> s \<noteq> [])"
  by (induction s arbitrary: b) auto

lemma digits_value_snoc:
  "py_isdigit c \<Longrightarrow> digits_value (s @ [c]) = 10 * digits_value s + digit_val c"
  by (simp add: digits_value_def)

lemma digits_value_str_nat: "digits_value (str_nat n) = n"
proof (induction n rule: str_nat.induct)
  case (1 n)
  show ?case
  proof (cases "n < 10")
    case True
    then show ?thesis
      by (subst str_nat.simps) (simp add: digits_value_def isdigit_digit_char digit_val_digit_char)
  next
    case False
    have d: "py_isdigit (digit_char (n mod 10))" by (simp add: isdigit_digit_char)
    from False "1.IH" have "digits_value (str_nat (n div 10)) = n div 10" by simp
    with False d show ?thesis
      by (subst str_nat.simps) (simp add: digits_value_snoc digit_val_digit_char)
  qed
qed

lemma strip_id: "s \<noteq> [] \<Longrightarrow> \<not> py_isspace (hd s) \<Longrightarrow> \<not> py_isspace (last s) \<Longrightarrow> strip s = s"
proof -
  assume a: "s \<noteq> []" "\<not> py_isspace (hd s)" "\<not> py_isspace (last s)"
  then have 1: "dropWhile py_isspace s = s" by (cases s) auto
  from a have "\<not> py_isspace (hd (rev s))" by (simp add: hd_rev)
  with a have 2: "dropWhile py_isspace (rev s) = rev s" by (cases "rev s") auto
  show ?thesis by (simp add: strip_def 1 2)
qed

lemma strip_nospace: "\<forall>c \<in> set s. \<not> py_isspace c \<Longrightarrow> strip s = s"
proof (cases "s = []")
  case True
  then show ?thesis by (simp add: strip_def)
next
  case False
  assume "\<forall>c \<in> set s. \<not> py_isspace c"
  with False show ?thesis by (intro strip_id) auto
qed

lemma lower_digits: "\<forall>c \<in> set s. lower_char c = c \<Longrightarrow> lower s = s"
  by (simp add: lower_def map_idI)

lemma split_sign_digit: "s \<noteq> [] \<Longrightarrow> py_isdigit (hd s) \<Longrightarrow> split_sign s = (1, s)"
  by (cases s) (auto simp: split_sign_def dest: isdigit_not_sign)

lemma split_sign_str_nat: "split_sign (str_nat n) = (1, str_nat n)"
  using str_nat_nonempty[of n] str_nat_digits[of "hd (str_nat n)" n]
  by (intro split_sign_digit) auto

lemma digitpart_str_nat: "digitpart (str_nat n)"
  by (simp add: digitpart_def digitpart_from_digits str_nat_digits str_nat_nonempty)

lemma str_int_chars: "c \<in> set (str_int i) \<Longrightarrow> py_isdigit c \<or> c = CHR ''-''"
  by (auto simp: str_int_def dest: str_nat_digits split: if_splits)

lemma minus_props: "\<not> py_isspace (CHR ''-'')" "lower_char (CHR ''-'') = CHR ''-''"
  by (simp_all add: py_isspace_def lower_char_def)

lemma str_int_nospace: "c \<in> set (str_int i) \<Longrightarrow> \<not> py_isspace c"
  using str_int_chars[of c i] isdigit_not_space[of c] minus_props by auto

lemma int_of_str_str_int: "int_of_str (str_int i) = Inr i"
proof -
  have st: "strip (str_int i) = str_int i"
    by (rule strip_nospace) (simp add: str_int_nospace)
  show ?thesis
  proof (cases "i < 0")
    case True
    then have "split_sign (str_int i) = (- 1, str_nat (nat (- i)))"
      by (simp add: str_int_def split_sign_def)
    with True show ?thesis
      by (simp add: int_of_str_def st digitpart_str_nat digits_value_str_nat)
  next
    case False
    then have "split_sign (str_int i) = (1, str_nat (nat i))"
      by (simp add: str_int_def split_sign_str_nat)
    with False show ?thesis
      by (simp add: int_of_str_def st digitpart_str_nat digits_value_str_nat)
  qed
qed

lemma lower_str_int: "lower (str_int i) = str_int i"
proof (rule lower_digits, rule ballI)
  fix c assume "c \<in> set (str_int i)"
  then show "lower_char c = c"
    using str_int_chars[of c i] isdigit_lower[of c] minus_props by auto
qed

lemma hd_str_int_not_x: "hd (str_int i) \<noteq> CHR ''x''"
  using str_nat_nonempty[of "nat i"] str_nat_digits[of "hd (str_nat (nat i))" "nat i"]
  by (auto simp: str_int_def dest: isdigit_not_sign)

lemma str_int_nonempty: "str_int i \<noteq> []"
  by (simp add: str_int_def str_nat_nonempty)

lemma clean_key_str_int: "clean_key (str_int i) = str_int i"
  using hd_str_int_not_x[of i] str_int_nonempty[of i]
proof -
  have "strip (str_int i) = str_int i"
    by (rule strip_nospace) (simp add: str_int_nospace)
  then have "lower (strip (str_int i)) = str_int i" by (simp add: lower_str_int)
  then show ?thesis
    using hd_str_int_not_x[of i] by (cases "str_int i") (auto simp: clean_key_def)
qed

lemma safe_convert_IntV: "safe_convert_to_int (IntV i) = Some i"
  by (simp add: safe_convert_to_int_def isna_def clean_key_str_int int_of_str_str_int)


lemma char_eq_nat: "c = d \<longleftrightarrow> (of_char c :: nat) = of_char d"
  by simp

lemma of_char_lower_char:
  "(of_char (lower_char c) :: nat) =
     (if 65 \<le> (of_char c :: nat) \<and> (of_char c :: nat) \<le> 90 then of_char c + 32 else of_char c)"
  by (simp add: lower_char_def Let_def)

lemma lower_char_eq_x: "lower_char c = CHR ''x'' \<longleftrightarrow> c = CHR ''x'' \<or> c = CHR ''X''"
  unfolding char_eq_nat[of _ "CHR ''x''"] char_eq_nat[of _ "CHR ''X''"] of_char_lower_char
  by auto

lemma lower_char_sign: "lower_char c = CHR ''+'' \<longleftrightarrow> c = CHR ''+''" "lower_char c = CHR ''-'' \<longleftrightarrow> c = CHR ''-''"
  unfolding char_eq_nat[of _ "CHR ''+''"] char_eq_nat[of _ "CHR ''-''"] of_char_lower_char
  by auto

lemma lower_char_space: "py_isspace (lower_char c) \<longleftrightarrow> py_isspace c"
  unfolding py_isspace_def Let_def of_char_lower_char by auto

lemma lower_char_digit: "py_isdigit (lower_char c) \<longleftrightarrow> py_isdigit c"
  unfolding py_isdigit_def Let_def of_char_lower_char by auto

lemma lower_char_x: "lower_char (CHR ''x'') = CHR ''x''" "lower_char (CHR ''X'') = CHR ''x''"
  by (simp_all add: lower_char_eq_x)

lemma clean_key_x_str_int: "clean_key (CHR ''x'' # str_int i) = str_int i"
proof -
  have "strip (CHR ''x'' # str_int i) = CHR ''x'' # str_int i"
    using str_int_nospace[of _ i] by (intro strip_nospace) (auto simp: py_isspace_def)
  then show ?thesis
    using lower_str_int[of i] by (simp add: clean_key_def lower_def lower_char_x)
qed

lemma clean_key_X_str_int: "clean_key (CHR ''X'' # str_int i) = str_int i"
proof -
  have "strip (CHR ''X'' # str_int i) = CHR ''X'' # str_int i"
    using str_int_nospace[of _ i] by (intro strip_nospace) (auto simp: py_isspace_def)
  then show ?thesis
    using lower_str_int[of i] by (simp add: clean_key_def lower_def lower_char_x)
qed

lemma strip_Cons_nonspace:
  assumes "\<not> py_isspace c"
  shows "\<exists>t. strip (c # s) = c # t"
proof -
  have "\<exists>u. dropWhile py_isspace (rev s @ [c]) = u @ [c]"
    using assms by (cases "\<forall>x \<in> set (rev s). py_isspace x") (auto simp: dropWhile_append)
  then obtain u where "dropWhile py_isspace (rev s @ [c]) = u @ [c]" ..
  with assms show ?thesis by (simp add: strip_def)
qed

lemma int_of_str_bad_head:
  assumes "\<not> py_isspace c" "\<not> py_isdigit c" "c \<noteq> CHR ''+''" "c \<noteq> CHR ''-''"
  shows "int_of_str (c # s) = Inl ValueError"
proof -
  from strip_Cons_nonspace[OF assms(1)] obtain t where t: "strip (c # s) = c # t" ..
  from assms have "split_sign (c # t) = (1, c # t)" by (simp add: split_sign_def)
  moreover from assms have "\<not> digitpart (c # t)" by (simp add: digitpart_def)
  ultimately show ?thesis by (simp add: int_of_str_def t)
qed

lemma safe_convert_other_prefix:
  assumes "\<not> py_isdigit c" "\<not> py_isspace c"
    and "c \<noteq> CHR ''x''" "c \<noteq> CHR ''X''" "c \<noteq> CHR ''+''" "c \<noteq> CHR ''-''"
  shows "safe_convert_to_int (Str (c # s)) = None"
proof -
  from strip_Cons_nonspace[OF assms(2)] obtain t where t: "strip (c # s) = c # t" ..
  have nx: "lower_char c \<noteq> CHR ''x''" using assms by (simp add: lower_char_eq_x)
  then have ck: "clean_key (c # s) = lower_char c # lower t"
    by (simp add: clean_key_def t lower_def)
  have "int_of_str (lower_char c # lower t) = Inl ValueError"
    using assms by (intro int_of_str_bad_head) (simp_all add: lower_char_space lower_char_digit lower_char_sign)
  then show ?thesis by (simp add: safe_convert_to_int_def isna_def ck)
qed

lemma safe_convert_x_prefix:
  "lower (strip s) = CHR ''x'' # rest \<Longrightarrow>
     safe_convert_to_int (Str s) = (case int_of_str rest of Inr k \<Rightarrow> Some k | Inl e \<Rightarrow> None)"
  by (simp add: safe_convert_to_int_def isna_def clean_key_def)

text \<open>
  Claim C9, as the code has it. The one prefix character that \<^verbatim>\<open>safe_convert_to_int\<close>
  removes is \<^verbatim>\<open>x\<close> (or \<^verbatim>\<open>X\<close>, since the text is lower-cased first): the text of an
  integer behind it is converted to that integer, and in general the rest behind the
  \<^verbatim>\<open>x\<close> goes to \<^verbatim>\<open>int\<close>. A text that starts with any other character that is neither
  a digit, a sign nor whitespace gives None, and so does every text that \<^verbatim>\<open>int\<close>
  rejects: the function returns an integer or None and raises nothing.
\<close>

theorem safe_convert_to_int_prefix:
  "safe_convert_to_int (Str (CHR ''x'' # str_int n)) = Some n \<and>
   safe_convert_to_int (Str (CHR ''X'' # str_int n)) = Some n \<and>
   (lower (strip s) = CHR ''x'' # rest \<longrightarrow>
      safe_convert_to_int (Str s) = (case int_of_str rest of Inr k \<Rightarrow> Some k | Inl e \<Rightarrow> None)) \<and>
   (\<not> py_isdigit c \<and> \<not> py_isspace c \<and> c \<notin> {CHR ''x'', CHR ''X'', CHR ''+'', CHR ''-''} \<longrightarrow>
      safe_convert_to_int (Str (c # t)) = None) \<and>
   (int_of_str (clean_key u) = Inl e \<longrightarrow> safe_convert_to_int (Str u) = None)"
proof (intro conjI impI)
  show "safe_convert_to_int (Str (CHR ''x'' # str_int n)) = Some n"
    by (simp add: safe_convert_to_int_def isna_def clean_key_x_str_int int_of_str_str_int)
  show "safe_convert_to_int (Str (CHR ''X'' # str_int n)) = Some n"
    by (simp add: safe_convert_to_int_def isna_def clean_key_X_str_int int_of_str_str_int)
next
  assume "lower (strip s) = CHR ''x'' # rest"
  then show "safe_convert_to_int (Str s) = (case int_of_str rest of Inr k \<Rightarrow> Some k | Inl e \<Rightarrow> None)"
    by (rule safe_convert_x_prefix)
next
  assume "\<not> py_isdigit c \<and> \<not> py_isspace c \<and> c \<notin> {CHR ''x'', CHR ''X'', CHR ''+'', CHR ''-''}"
  then show "safe_convert_to_int (Str (c # t)) = None"
    by (intro safe_convert_other_prefix) auto
next
  assume "int_of_str (clean_key u) = Inl e"
  then show "safe_convert_to_int (Str u) = None"
    by (simp add: safe_convert_to_int_def isna_def)
qed

text \<open>The theorem at the texts \<^verbatim>\<open>" X12 "\<close>, \<^verbatim>\<open>"S29"\<close>, \<^verbatim>\<open>"12a"\<close> and \<^verbatim>\<open>"x-7"\<close>.\<close>

theorem safe_convert_to_int_prefix_witness:
  "lower (strip '' X12 '') = CHR ''x'' # ''12'' \<and>
   safe_convert_to_int (Str '' X12 '') = Some 12 \<and>
   \<not> py_isdigit (CHR ''S'') \<and> \<not> py_isspace (CHR ''S'') \<and>
   CHR ''S'' \<notin> {CHR ''x'', CHR ''X'', CHR ''+'', CHR ''-''} \<and>
   safe_convert_to_int (Str ''S29'') = None \<and>
   int_of_str (clean_key ''12a'') = Inl ValueError \<and>
   safe_convert_to_int (Str ''12a'') = None \<and>
   safe_convert_to_int (Str ''x-7'') = Some (- 7)"
proof -
  have h1: "lower (strip '' X12 '') = CHR ''x'' # ''12''" by code_simp
  have h2: "\<not> py_isdigit (CHR ''S'') \<and> \<not> py_isspace (CHR ''S'') \<and>
    CHR ''S'' \<notin> {CHR ''x'', CHR ''X'', CHR ''+'', CHR ''-''}" by code_simp
  have h3: "int_of_str (clean_key ''12a'') = Inl ValueError" by code_simp
  have v: "int_of_str ''12'' = Inr 12" by code_simp
  have s7: "str_int (- 7) = ''-7''" by code_simp
  note t = safe_convert_to_int_prefix[of "- 7" "'' X12 ''" "''12''" "CHR ''S''" "''29''" "''12a''" ValueError]
  from t h1 h2 h3 v s7 show ?thesis by simp
qed

text \<open>
  Claim C9 as stated fails: \<^verbatim>\<open>S\<close> is a prefix character that is no digit, the rest
  \<^verbatim>\<open>29\<close> is an integer, and the result is None.
\<close>

theorem safe_convert_to_int_prefix_counterexample:
  "\<not> py_isdigit (CHR ''S'') \<and> int_of_str ''29'' = Inr 29 \<and>
   safe_convert_to_int (Str ''S29'') = None"
  by code_simp

section \<open>Properties of process\_chunk\<close>

lemma build_fact_key: "build_fact dk yr sk pk vk r = Inr f \<Longrightarrow>
    invoice_item_number f = Invoice_Item_Number r \<and> year f = yr"
  by (auto simp: build_fact_def bind_err_def split: sum.splits)

lemma transform_row_key: "transform_row cache r = Append f \<Longrightarrow> fact_key f = row_key r"
  by (auto simp: transform_row_def fact_key_def row_key_def Let_def
      split: sum.splits bool.splits option.splits if_splits dest!: build_fact_key)

lemma process_row_unfold:
  "process_row cache r st =
     (if \<not> has_invoice r then (st, None)
      else if row_key r \<in> chunk_seen_invoices st then (st, None)
      else if row_key r \<in> dom (tracker st) then (st\<lparr>duplicate_count := duplicate_count st + 1\<rparr>, None)
      else (let st1 = st\<lparr>chunk_seen_invoices := insert (row_key r) (chunk_seen_invoices st),
                         tracker := (tracker st)(row_key r \<mapsto> True)\<rparr>
            in case transform_row cache r of
                 Skipped \<Rightarrow> (st1, None)
               | Missing_Store n \<Rightarrow> (st1\<lparr>missing_stores := insert n (missing_stores st1)\<rparr>, None)
               | Missing_Vendor n \<Rightarrow> (st1\<lparr>missing_vendors := insert n (missing_vendors st1)\<rparr>, None)
               | Missing_Product n \<Rightarrow> (st1\<lparr>missing_products := insert n (missing_products st1)\<rparr>, None)
               | Append f \<Rightarrow> (st1\<lparr>fact_records := fact_records st1 @ [f]\<rparr>, None)
               | Raised e \<Rightarrow> if e = ValueError \<or> e = TypeError \<or> e = KeyError
                             then (st1, None) else (st1, Some e)))"
  by (auto simp: process_row_def row_body_def has_invoice_def row_key_def apply_result_def Let_def
      split: row_result.splits)



lemma process_row_tracker:
  "process_row cache r st = (st', e) \<Longrightarrow>
     tracker st' = (if has_invoice r \<and> row_key r \<notin> chunk_seen_invoices st \<and> row_key r \<notin> dom (tracker st)
                    then (tracker st)(row_key r \<mapsto> True) else tracker st)"
  by (auto simp: process_row_unfold Let_def split: if_splits row_result.splits)

lemma process_row_seen:
  "process_row cache r st = (st', e) \<Longrightarrow>
     chunk_seen_invoices st' =
       (if has_invoice r \<and> row_key r \<notin> chunk_seen_invoices st \<and> row_key r \<notin> dom (tracker st)
        then insert (row_key r) (chunk_seen_invoices st) else chunk_seen_invoices st)"
  by (auto simp: process_row_unfold Let_def split: if_splits row_result.splits)

lemma process_row_facts:
  "process_row cache r st = (st', e) \<Longrightarrow>
     fact_records st' = fact_records st @
       (if has_invoice r \<and> row_key r \<notin> chunk_seen_invoices st \<and> row_key r \<notin> dom (tracker st)
        then (case fact_of_row cache r of Some f \<Rightarrow> [f] | None \<Rightarrow> []) else [])"
  by (auto simp: process_row_unfold fact_of_row_def Let_def split: if_splits row_result.splits)

lemma fact_of_row_key: "fact_of_row cache r = Some f \<Longrightarrow> fact_key f = row_key r"
  by (auto simp: fact_of_row_def split: row_result.splits dest: transform_row_key)

lemma process_row_mono: "process_row cache r st = (st', e) \<Longrightarrow> tracker st \<subseteq>\<^sub>m tracker st'"
  by (auto simp: map_le_def dest!: process_row_tracker split: if_splits)

lemma process_rows_mono: "process_rows cache rs st = (st', e) \<Longrightarrow> tracker st \<subseteq>\<^sub>m tracker st'"
proof (induction rs arbitrary: st)
  case Nil
  then show ?case by simp
next
  case (Cons r rs)
  obtain st1 e1 where step: "process_row cache r st = (st1, e1)" by (cases "process_row cache r st")
  from process_row_mono[OF step] have m1: "tracker st \<subseteq>\<^sub>m tracker st1" .
  show ?case
  proof (cases e1)
    case None
    with Cons.prems step have "process_rows cache rs st1 = (st', e)" by simp
    from Cons.IH[OF this] m1 show ?thesis by (rule map_le_trans[rotated])
  next
    case (Some a)
    with Cons.prems step have "st' = st1" by simp
    with m1 show ?thesis by simp
  qed
qed

lemma process_row_seen_sub:
  "process_row cache r st = (st', e) \<Longrightarrow> chunk_seen_invoices st \<subseteq> dom (tracker st) \<Longrightarrow>
     chunk_seen_invoices st' \<subseteq> dom (tracker st') \<and> (has_invoice r \<longrightarrow> row_key r \<in> dom (tracker st'))"
  by (frule process_row_tracker, drule process_row_seen) (auto split: if_splits)

lemma process_rows_claimed:
  "process_rows cache rs st = (st', None) \<Longrightarrow> chunk_seen_invoices st \<subseteq> dom (tracker st) \<Longrightarrow>
     r \<in> set rs \<Longrightarrow> has_invoice r \<Longrightarrow> row_key r \<in> dom (tracker st')"
proof (induction rs arbitrary: st)
  case Nil
  then show ?case by simp
next
  case (Cons a rs)
  obtain st1 e1 where step: "process_row cache a st = (st1, e1)" by (cases "process_row cache a st")
  with Cons.prems(1) have e1: "e1 = None" and rest: "process_rows cache rs st1 = (st', None)"
    by (auto split: option.splits)
  from process_row_seen_sub[OF step Cons.prems(2)]
  have sub: "chunk_seen_invoices st1 \<subseteq> dom (tracker st1)"
    and a: "has_invoice a \<longrightarrow> row_key a \<in> dom (tracker st1)" by auto
  show ?case
  proof (cases "r = a")
    case True
    with a Cons.prems(4) have "row_key r \<in> dom (tracker st1)" by simp
    moreover from process_rows_mono[OF rest] have "dom (tracker st1) \<subseteq> dom (tracker st')"
      by (rule map_le_implies_dom_le)
    ultimately show ?thesis by auto
  next
    case False
    with Cons.prems(3) have "r \<in> set rs" by simp
    from Cons.IH[OF rest sub this Cons.prems(4)] show ?thesis .
  qed
qed

lemma process_rows_filter_key:
  "process_rows cache rs st = (st', None) \<Longrightarrow>
     filter (\<lambda>f. fact_key f = k) (fact_records st') =
       filter (\<lambda>f. fact_key f = k) (fact_records st) @
         (if k \<in> chunk_seen_invoices st \<or> k \<in> dom (tracker st) then []
          else case find (\<lambda>r. has_invoice r \<and> row_key r = k) rs of
                 None \<Rightarrow> []
               | Some r \<Rightarrow> (case fact_of_row cache r of Some f \<Rightarrow> [f] | None \<Rightarrow> []))"
proof (induction rs arbitrary: st)
  case Nil
  then show ?case by simp
next
  case (Cons a rs)
  obtain st1 e1 where step: "process_row cache a st = (st1, e1)" by (cases "process_row cache a st")
  with Cons.prems(1) have e1: "e1 = None" and rest: "process_rows cache rs st1 = (st', None)"
    by (auto split: option.splits)
  note IH = Cons.IH[OF rest]
  note T = process_row_tracker[OF step] and S = process_row_seen[OF step] and F = process_row_facts[OF step]
  show ?case
  proof (cases "has_invoice a \<and> row_key a \<notin> chunk_seen_invoices st \<and> row_key a \<notin> dom (tracker st)")
    case claimed: True
    show ?thesis
    proof (cases "row_key a = k")
      case True
      with claimed T S F IH show ?thesis
        by (auto split: option.splits dest: fact_of_row_key)
    next
      case False
      with claimed T S F IH show ?thesis
        by (auto split: option.splits dest: fact_of_row_key)
    qed
  next
    case False
    with T S F IH show ?thesis by (auto split: option.splits)
  qed
qed


lemma process_chunk_Inr:
  assumes "snd (process_chunk trk cache chunk) = Inr facts"
  obtains st where "process_rows cache (sort_values chunk) (initial_state trk) = (st, None)"
    and "facts = fact_records st" and "fst (process_chunk trk cache chunk) = tracker st"
proof -
  obtain st e where p: "process_rows cache (sort_values chunk) (initial_state trk) = (st, e)"
    by (cases "process_rows cache (sort_values chunk) (initial_state trk)")
  with assms have "e = None" "facts = fact_records st" "fst (process_chunk trk cache chunk) = tracker st"
    by (auto simp: process_chunk_def process_chunk_state_def split: option.splits)
  with p that show thesis by simp
qed

lemma process_chunk_filter_key:
  assumes "snd (process_chunk trk cache chunk) = Inr facts"
  shows "filter (\<lambda>f. fact_key f = k) facts =
     (if k \<in> dom trk then []
      else case find (\<lambda>r. has_invoice r \<and> row_key r = k) (sort_values chunk) of
             None \<Rightarrow> []
           | Some r \<Rightarrow> (case fact_of_row cache r of Some f \<Rightarrow> [f] | None \<Rightarrow> []))"
proof -
  from assms obtain st where p: "process_rows cache (sort_values chunk) (initial_state trk) = (st, None)"
    and f: "facts = fact_records st" by (rule process_chunk_Inr)
  from process_rows_filter_key[OF p, of k] f show ?thesis
    by (simp add: initial_state_def)
qed

lemma dom_check_existing_invoices:
  "dom (check_existing_invoices rows t) = dom t \<union> (\<lambda>(i, y). (dict_key i, dict_key y)) ` set rows"
  unfolding check_existing_invoices_def
  by (induction rows arbitrary: t) auto

lemma process_chunk_mono: "trk \<subseteq>\<^sub>m fst (process_chunk trk cache chunk)"
proof -
  obtain st e where p: "process_rows cache (sort_values chunk) (initial_state trk) = (st, e)"
    by (cases "process_rows cache (sort_values chunk) (initial_state trk)")
  then have "fst (process_chunk trk cache chunk) = tracker st"
    by (simp add: process_chunk_def process_chunk_state_def split: option.splits)
  with process_rows_mono[OF p] show ?thesis by (simp add: initial_state_def)
qed

text \<open>Rows with an invalid measure, and the measures and keys of a record that is appended.\<close>

lemma py_float_error: "py_float c = Inl e \<Longrightarrow> e = ValueError"
  by (auto simp: py_float_def float_of_str_def Let_def split: cell.splits prod.splits if_splits option.splits)

lemma any_invalid_measure:
  "v \<in> set vals \<Longrightarrow> isna v \<or> (\<exists>f. py_float v = Inr f \<and> le_zero f) \<Longrightarrow>
     any_invalid vals = Inr True \<or> any_invalid vals = Inl ValueError"
  by (induction vals) (auto split: sum.splits dest: py_float_error)

lemma invalid_measure_row_skipped:
  assumes "v \<in> set (required_numeric_fields r)"
    and "isna v \<or> (\<exists>f. py_float v = Inr f \<and> le_zero f)"
    and "process_row cache r st = (st', e)"
  shows "e = None \<and> fact_records st' = fact_records st"
proof -
  from any_invalid_measure[OF assms(1,2)]
  have "transform_row cache r = Skipped \<or> transform_row cache r = Raised ValueError"
    by (auto simp: transform_row_def)
  with assms(3) show ?thesis
    by (auto simp: process_row_unfold Let_def split: if_splits)
qed


lemma any_invalid_False:
  "any_invalid vals = Inr False \<Longrightarrow> v \<in> set vals \<Longrightarrow>
     \<not> isna v \<and> (\<exists>f. py_float v = Inr f \<and> \<not> le_zero f)"
  by (induction vals) (auto split: sum.splits if_splits)

lemma transform_row_Append:
  assumes "transform_row cache r = Append f"
  shows "any_invalid (required_numeric_fields r) = Inr False \<and>
    (\<exists>dk sk pk vk. build_fact dk (year_of (Date r)) sk pk vk r = Inr f \<and>
       dk \<noteq> 0 \<and> sk \<noteq> 0 \<and> pk \<noteq> 0 \<and> vk \<noteq> 0)"
  using assms
  by (auto simp: transform_row_def Let_def resolved_def
      split: sum.splits bool.splits option.splits if_splits)

lemma fact_of_row_measures:
  assumes "fact_of_row cache r = Some f"
  shows "py_float (State_Bottle_Cost r) = Inr (state_bottle_cost f) \<and> \<not> le_zero (state_bottle_cost f) \<and>
    py_float (State_Bottle_Retail r) = Inr (state_bottle_retail f) \<and> \<not> le_zero (state_bottle_retail f) \<and>
    py_float (Sale_Dollars r) = Inr (sale_dollars f) \<and> \<not> le_zero (sale_dollars f) \<and>
    py_float (Volume_Sold_Liters r) = Inr (volume_sold_liters f) \<and> \<not> le_zero (volume_sold_liters f) \<and>
    py_float (Volume_Sold_Gallons r) = Inr (volume_sold_gallons f) \<and> \<not> le_zero (volume_sold_gallons f) \<and>
    py_int (Bottles_Sold r) = Inr (bottles_sold f) \<and>
    (\<exists>b. py_float (Bottles_Sold r) = Inr b \<and> \<not> le_zero b)"
proof -
  from assms have "transform_row cache r = Append f"
    by (auto simp: fact_of_row_def split: row_result.splits)
  from transform_row_Append[OF this] obtain dk sk pk vk
    where ok: "any_invalid (required_numeric_fields r) = Inr False"
      and b: "build_fact dk (year_of (Date r)) sk pk vk r = Inr f" by blast
  note A = any_invalid_False[OF ok]
  from b have c: "py_float (State_Bottle_Cost r) = Inr (state_bottle_cost f)"
    "py_float (State_Bottle_Retail r) = Inr (state_bottle_retail f)"
    "py_float (Sale_Dollars r) = Inr (sale_dollars f)"
    "py_float (Volume_Sold_Liters r) = Inr (volume_sold_liters f)"
    "py_float (Volume_Sold_Gallons r) = Inr (volume_sold_gallons f)"
    "py_int (Bottles_Sold r) = Inr (bottles_sold f)"
    by (auto simp: build_fact_def bind_err_def split: sum.splits)
  from A[of "State_Bottle_Cost r"] A[of "State_Bottle_Retail r"] A[of "Sale_Dollars r"]
    A[of "Volume_Sold_Liters r"] A[of "Volume_Sold_Gallons r"] A[of "Bottles_Sold r"] c
  show ?thesis by (auto simp: required_numeric_fields_def)
qed

lemma fact_of_row_keys_nonzero:
  "fact_of_row cache r = Some f \<Longrightarrow>
     date_key f \<noteq> 0 \<and> store_key f \<noteq> 0 \<and> product_key f \<noteq> 0 \<and> vendor_key f \<noteq> 0"
  by (auto simp: fact_of_row_def build_fact_def bind_err_def
      split: row_result.splits sum.splits dest!: transform_row_Append)

text \<open>
  Claim C2. When \<^verbatim>\<open>process_chunk\<close> returns, no fact record it returns has an invoice
  key that was in the tracker when the call began, whatever the tracker, the cache and
  the chunk. In particular, if the tracker was seeded by \<^verbatim>\<open>check_existing_invoices\<close>
  from rows of \<^verbatim>\<open>fact_sales\<close>, no returned record has the (invoice identifier, year)
  pair of one of those rows. A tracker restored from a checkpoint is a tracker like any
  other.
\<close>

theorem process_chunk_rejects_tracked_keys:
  assumes "snd (process_chunk trk cache chunk) = Inr facts" and "f \<in> set facts"
  shows "fact_key f \<notin> dom trk \<and>
    (trk = check_existing_invoices rows t0 \<and> (iv, yr) \<in> set rows \<longrightarrow>
       fact_key f \<noteq> (dict_key iv, dict_key yr)) \<and>
    (load_tracker_checkpoint fs t1 = Inr (trk, True) \<and> trk k \<noteq> None \<longrightarrow> fact_key f \<noteq> k)"
proof -
  from assms(2) have "filter (\<lambda>g. fact_key g = fact_key f) facts \<noteq> []"
    by (auto simp: filter_empty_conv)
  with process_chunk_filter_key[OF assms(1), of "fact_key f"]
  have nd: "fact_key f \<notin> dom trk" by (auto split: if_splits)
  moreover have "trk = check_existing_invoices rows t0 \<and> (iv, yr) \<in> set rows \<longrightarrow>
       fact_key f \<noteq> (dict_key iv, dict_key yr)"
  proof (intro impI notI)
    assume a: "trk = check_existing_invoices rows t0 \<and> (iv, yr) \<in> set rows"
      and b: "fact_key f = (dict_key iv, dict_key yr)"
    from a have "(dict_key iv, dict_key yr) \<in> (\<lambda>(i, y). (dict_key i, dict_key y)) ` set rows"
      by (auto intro: rev_image_eqI)
    with a b have "fact_key f \<in> dom trk" by (simp add: dom_check_existing_invoices)
    with nd show False by simp
  qed
  moreover have "load_tracker_checkpoint fs t1 = Inr (trk, True) \<and> trk k \<noteq> None \<longrightarrow> fact_key f \<noteq> k"
    using nd by auto
  ultimately show ?thesis by blast
qed

text \<open>
  Claim C3. \<^verbatim>\<open>process_chunk\<close> only adds keys to the tracker: the tracker it leaves
  extends the tracker it found, also when it raises. When it returns, the key of every
  row of the chunk with an invoice identifier is in the tracker. A row that claims its
  key and is then rejected (no fact record comes from it) leaves \<^verbatim>\<open>fact_records\<close>
  as it was and its key in the tracker.
\<close>

theorem process_chunk_only_adds_keys:
  "trk \<subseteq>\<^sub>m fst (process_chunk trk cache chunk) \<and>
   (snd (process_chunk trk cache chunk) = Inr facts \<and> r \<in> set chunk \<and> has_invoice r \<longrightarrow>
      row_key r \<in> dom (fst (process_chunk trk cache chunk))) \<and>
   (has_invoice r \<and> row_key r \<notin> chunk_seen_invoices st \<and> row_key r \<notin> dom (tracker st) \<and>
    fact_of_row cache r = None \<and> process_row cache r st = (st', e) \<longrightarrow>
      fact_records st' = fact_records st \<and> tracker st' = (tracker st)(row_key r \<mapsto> True))"
proof (intro conjI impI)
  show "trk \<subseteq>\<^sub>m fst (process_chunk trk cache chunk)" by (rule process_chunk_mono)
next
  assume a: "snd (process_chunk trk cache chunk) = Inr facts \<and> r \<in> set chunk \<and> has_invoice r"
  then obtain stf where p: "process_rows cache (sort_values chunk) (initial_state trk) = (stf, None)"
    and t: "fst (process_chunk trk cache chunk) = tracker stf" by (auto elim: process_chunk_Inr)
  from a have "r \<in> set (sort_values chunk)" by (simp add: sort_values_def)
  with process_rows_claimed[OF p] a t show "row_key r \<in> dom (fst (process_chunk trk cache chunk))"
    by (simp add: initial_state_def)
next
  assume a: "has_invoice r \<and> row_key r \<notin> chunk_seen_invoices st \<and> row_key r \<notin> dom (tracker st) \<and>
    fact_of_row cache r = None \<and> process_row cache r st = (st', e)"
  then have step: "process_row cache r st = (st', e)" by simp
  from process_row_facts[OF step] a show "fact_records st' = fact_records st" by simp
  from process_row_tracker[OF step] a show "tracker st' = (tracker st)(row_key r \<mapsto> True)" by simp
qed

text \<open>
  Claim C4, as the code has it. Let the rows be processed in any arrangement of the chunk
  that is sorted by date, whatever order the sort leaves among rows with equal dates. For
  every invoice key, the fact records with that key that come out are: none, if the key
  was in the tracker before or no row has it; otherwise what the first row with that key
  in this arrangement gives, which is one record if that row passes every later check and
  none if it does not. Later rows with the key never give a record. The arrangement that
  \<open>process_chunk\<close> uses is one of them.
\<close>

theorem process_chunk_first_row_wins:
  assumes "date_sorted chunk rs"
    and "process_rows cache rs (initial_state trk) = (st, None)"
  shows "filter (\<lambda>f. fact_key f = k) (fact_records st) =
     (if k \<in> dom trk then []
      else case find (\<lambda>r. has_invoice r \<and> row_key r = k) rs of
             None \<Rightarrow> []
           | Some r \<Rightarrow> (case fact_of_row cache r of Some f \<Rightarrow> [f] | None \<Rightarrow> [])) \<and>
    date_sorted chunk (sort_values chunk)"
  using process_rows_filter_key[OF assms(2), of k]
  by (simp add: initial_state_def date_sorted_def sort_values_def)

text \<open>
  The theorem on two rows with the same invoice, year and date and different measures,
  processed in the order opposite to that of the chunk: the row processed first gives
  the one record.
\<close>

theorem process_chunk_first_row_wins_witness:
  "date_sorted [sample_row, sample_row\<lparr>Bottles_Sold := IntV 7\<rparr>]
     [sample_row\<lparr>Bottles_Sold := IntV 7\<rparr>, sample_row] \<and>
   snd (process_rows sample_cache [sample_row\<lparr>Bottles_Sold := IntV 7\<rparr>, sample_row]
          (initial_state Map.empty)) = None \<and>
   filter (\<lambda>f. fact_key f = row_key sample_row)
     (fact_records (fst (process_rows sample_cache
        [sample_row\<lparr>Bottles_Sold := IntV 7\<rparr>, sample_row] (initial_state Map.empty))))
     = [sample_fact\<lparr>bottles_sold := 7\<rparr>]"
proof -
  let ?r = "sample_row\<lparr>Bottles_Sold := IntV 7\<rparr>"
  let ?f = "sample_fact\<lparr>bottles_sold := 7\<rparr>"
  let ?p = "process_rows sample_cache [?r, sample_row] (initial_state Map.empty)"
  have h0: "date_sorted [sample_row, ?r] [?r, sample_row]"
    by (simp add: date_sorted_def add_mset_commute)
  have h1: "snd ?p = None" by code_simp
  then have h2: "?p = (fst ?p, None)" by (metis prod.collapse)
  have h3: "has_invoice ?r \<and> row_key ?r = row_key sample_row" by code_simp
  have h4: "fact_of_row sample_cache ?r = Some ?f" by code_simp
  from process_chunk_first_row_wins[OF h0 h2, of "row_key sample_row"] h0 h1 h3 h4
  show ?thesis by simp
qed

text \<open>
  The theorem on a tracker seeded with \<^verbatim>\<open>INV100\<close> of 2020 and a chunk with that
  invoice and with \<^verbatim>\<open>INV200\<close>: only the second gives a record.
\<close>

theorem process_chunk_rejects_tracked_keys_witness:
  "snd (process_chunk (check_existing_invoices [(Str ''INV100'', IntV 2020)] Map.empty) sample_cache
          [sample_row, sample_row\<lparr>Invoice_Item_Number := Str ''INV200''\<rparr>])
     = Inr [sample_fact\<lparr>invoice_item_number := Str ''INV200''\<rparr>] \<and>
   fact_key (sample_fact\<lparr>invoice_item_number := Str ''INV200''\<rparr>)
     \<notin> dom (check_existing_invoices [(Str ''INV100'', IntV 2020)] Map.empty) \<and>
   (Str ''INV100'', IntV 2020) \<in> set [(Str ''INV100'', IntV 2020)] \<and>
   fact_key (sample_fact\<lparr>invoice_item_number := Str ''INV200''\<rparr>)
     \<noteq> (dict_key (Str ''INV100''), dict_key (IntV 2020))"
proof -
  let ?trk = "check_existing_invoices [(Str ''INV100'', IntV 2020)] Map.empty"
  let ?f = "sample_fact\<lparr>invoice_item_number := Str ''INV200''\<rparr>"
  have h1: "snd (process_chunk ?trk sample_cache
          [sample_row, sample_row\<lparr>Invoice_Item_Number := Str ''INV200''\<rparr>]) = Inr [?f]"
    by code_simp
  have h2: "?f \<in> set [?f]" by simp
  from process_chunk_rejects_tracked_keys[OF h1 h2, of "[(Str ''INV100'', IntV 2020)]" Map.empty
      "Str ''INV100''" "IntV 2020"] h1
  show ?thesis by simp
qed

text \<open>The theorem on a row with \<^verbatim>\<open>Bottles Sold = -5\<close>: no record, and the key stays.\<close>

theorem process_chunk_only_adds_keys_witness:
  "Map.empty \<subseteq>\<^sub>m fst (process_chunk Map.empty sample_cache [sample_row\<lparr>Bottles_Sold := IntV (- 5)\<rparr>]) \<and>
   snd (process_chunk Map.empty sample_cache [sample_row\<lparr>Bottles_Sold := IntV (- 5)\<rparr>]) = Inr [] \<and>
   has_invoice (sample_row\<lparr>Bottles_Sold := IntV (- 5)\<rparr>) \<and>
   row_key (sample_row\<lparr>Bottles_Sold := IntV (- 5)\<rparr>)
     \<in> dom (fst (process_chunk Map.empty sample_cache [sample_row\<lparr>Bottles_Sold := IntV (- 5)\<rparr>])) \<and>
   fact_of_row sample_cache (sample_row\<lparr>Bottles_Sold := IntV (- 5)\<rparr>) = None \<and>
   fact_records (fst (process_row sample_cache (sample_row\<lparr>Bottles_Sold := IntV (- 5)\<rparr>)
                        (initial_state Map.empty))) = [] \<and>
   tracker (fst (process_row sample_cache (sample_row\<lparr>Bottles_Sold := IntV (- 5)\<rparr>)
                   (initial_state Map.empty)))
     (row_key (sample_row\<lparr>Bottles_Sold := IntV (- 5)\<rparr>)) = Some True"
proof -
  let ?r = "sample_row\<lparr>Bottles_Sold := IntV (- 5)\<rparr>"
  let ?st = "initial_state Map.empty"
  have h1: "snd (process_chunk Map.empty sample_cache [?r]) = Inr []" by code_simp
  have h2: "has_invoice ?r" by code_simp
  have h3: "fact_of_row sample_cache ?r = None" by code_simp
  have h4: "row_key ?r \<notin> chunk_seen_invoices ?st" "row_key ?r \<notin> dom (tracker ?st)"
    by (simp_all add: initial_state_def)
  have h5: "process_row sample_cache ?r ?st
      = (fst (process_row sample_cache ?r ?st), snd (process_row sample_cache ?r ?st))" by simp
  have h6: "fact_records ?st = []" by (simp add: initial_state_def)
  from process_chunk_only_adds_keys[of Map.empty sample_cache "[?r]" "[]" ?r ?st
      "fst (process_row sample_cache ?r ?st)" "snd (process_row sample_cache ?r ?st)"]
    h1 h2 h3 h4 h5 h6
  show ?thesis by simp
qed

text \<open>
  Claim C4 as stated fails: two rows with the same invoice identifier and year and
  different measures, the earlier one with \<^verbatim>\<open>Bottles Sold = -5\<close>. The earlier row claims
  the key and is rejected, the later row is a duplicate: no record for the key, although
  the later row alone gives one.
\<close>

theorem process_chunk_first_row_wins_counterexample:
  "has_invoice (sample_row\<lparr>Date := Timestamp 2020 1 3, Bottles_Sold := IntV (- 5)\<rparr>) \<and>
   has_invoice sample_row \<and>
   row_key (sample_row\<lparr>Date := Timestamp 2020 1 3, Bottles_Sold := IntV (- 5)\<rparr>) = row_key sample_row \<and>
   Bottles_Sold (sample_row\<lparr>Date := Timestamp 2020 1 3, Bottles_Sold := IntV (- 5)\<rparr>)
     \<noteq> Bottles_Sold sample_row \<and>
   snd (process_chunk Map.empty sample_cache
          [sample_row, sample_row\<lparr>Date := Timestamp 2020 1 3, Bottles_Sold := IntV (- 5)\<rparr>]) = Inr [] \<and>
   snd (process_chunk Map.empty sample_cache [sample_row]) = Inr [sample_fact]"
  by code_simp

text \<open>
  Claim C5 at a row with \<^verbatim>\<open>Bottles Sold = 0.5\<close>: the test \<^verbatim>\<open>float(val) <= 0\<close> lets the
  row pass, and \<^verbatim>\<open>int(row['Bottles Sold'])\<close> stores 0 in the fact record.
\<close>

theorem process_chunk_truncates_bottles_sold:
  "snd (process_chunk Map.empty sample_cache [sample_row\<lparr>Bottles_Sold := FloatV (Fin (1 / 2))\<rparr>])
     = Inr [sample_fact\<lparr>bottles_sold := 0\<rparr>]"
  by code_simp






section \<open>Properties of the cache validation\<close>

lemma dom_fold_upd:
  "dom (fold (\<lambda>(v, k) m. m(g k \<mapsto> v)) rows m0) = dom m0 \<union> g ` snd ` set rows"
  by (induction rows arbitrary: m0) (auto simp: image_iff)

lemma dom_load_caches:
  "dom (date_cache (load_caches w)) = str_date ` snd ` set (dim_date w)"
  "dom (product_cache (load_caches w)) = snd ` set (dim_product w)"
  using dom_fold_upd[of str_date "dim_date w" Map.empty]
    dom_fold_upd[of "\<lambda>k. k" "dim_product w" Map.empty]
  by (simp_all add: load_caches_def)

lemma validate_date_keys_result:
  "validate_date_keys w cache =
     (if dim_date w \<noteq> [] \<and> card (fst ` set (dim_date w)) \<noteq> card (dom (date_cache cache))
      then Inl ValueError else Inr ())"
  by (simp add: validate_date_keys_def Let_def dom_map_of_conv_image_fst)

text \<open>
  Claim C6. After the caches are loaded from the dimension tables, where \<^verbatim>\<open>date_key\<close> is
  the key of \<^verbatim>\<open>dim_date\<close>, the two validations raise ValueError exactly when the size of
  the date cache differs from the number of rows of \<^verbatim>\<open>dim_date\<close> or the size of the
  product cache differs from the number of rows of \<^verbatim>\<open>dim_product\<close>, and return normally
  when both are equal. (The test \<^verbatim>\<open>if min_date and max_date\<close> skips the comparison for
  an empty \<^verbatim>\<open>dim_date\<close>, whose cache is empty as well.)
\<close>

theorem validate_caches_after_population:
  assumes "distinct (map fst (dim_date w))"
  shows "validate_caches w (load_caches w) =
     (if card (dom (date_cache (load_caches w))) \<noteq> length (dim_date w) \<or>
         card (dom (product_cache (load_caches w))) \<noteq> length (dim_product w)
      then Inl ValueError else Inr ())"
proof -
  from assms have c: "card (fst ` set (dim_date w)) = length (dim_date w)"
    using distinct_card[of "map fst (dim_date w)"] by simp
  have e: "dim_date w = [] \<Longrightarrow> card (dom (date_cache (load_caches w))) = length (dim_date w)"
    by (simp add: dom_load_caches)
  show ?thesis
    using c e
    by (auto simp: validate_caches_def bind_err_def validate_date_keys_result validate_product_cache_def Let_def)
qed

text \<open>
  The theorem on the sample warehouse, where the sizes agree, and on a \<^verbatim>\<open>dim_date\<close> with
  the same date under two keys, where the cache has one date for two rows.
\<close>

theorem validate_caches_after_population_witness:
  "distinct (map fst (dim_date sample_warehouse)) \<and>
   validate_caches sample_warehouse (load_caches sample_warehouse) = Inr () \<and>
   card (dom (date_cache (load_caches sample_warehouse))) = length (dim_date sample_warehouse) \<and>
   distinct (map fst (dim_date (sample_warehouse\<lparr>dim_date := [(5, Timestamp 2020 1 3), (7, Timestamp 2020 1 3)]\<rparr>))) \<and>
   card (dom (date_cache (load_caches (sample_warehouse\<lparr>dim_date := [(5, Timestamp 2020 1 3), (7, Timestamp 2020 1 3)]\<rparr>)))) = 1 \<and>
   validate_caches (sample_warehouse\<lparr>dim_date := [(5, Timestamp 2020 1 3), (7, Timestamp 2020 1 3)]\<rparr>)
     (load_caches (sample_warehouse\<lparr>dim_date := [(5, Timestamp 2020 1 3), (7, Timestamp 2020 1 3)]\<rparr>))
     = Inl ValueError"
proof -
  let ?w = "sample_warehouse\<lparr>dim_date := [(5, Timestamp 2020 1 3), (7, Timestamp 2020 1 3)]\<rparr>"
  have d1: "distinct (map fst (dim_date sample_warehouse))" by (simp add: sample_warehouse_def)
  have d2: "distinct (map fst (dim_date ?w))" by simp
  have s1: "str_date (Timestamp 2020 (Suc 0) 3) = ''2020-01-03''"
    "str_date (Timestamp 2020 (Suc 0) 5) = ''2020-01-05''"
    by code_simp+
  have c1: "card (dom (date_cache (load_caches sample_warehouse))) = 2"
    by (simp add: dom_load_caches sample_warehouse_def s1)
  have c2: "card (dom (date_cache (load_caches ?w))) = 1"
    by (simp add: dom_load_caches)
  have c3: "card (dom (product_cache (load_caches sample_warehouse))) = 1"
    "card (dom (product_cache (load_caches ?w))) = 1"
    by (simp_all add: dom_load_caches sample_warehouse_def)
  have l: "length (dim_date sample_warehouse) = 2" "length (dim_product sample_warehouse) = 1"
    "length (dim_date ?w) = 2" "length (dim_product ?w) = 1"
    by (simp_all add: sample_warehouse_def)
  from validate_caches_after_population[OF d1] validate_caches_after_population[OF d2]
    d1 d2 c1 c2 c3 l
  show ?thesis by simp
qed

section \<open>Properties of the checkpoints\<close>

lemma split_acc_nosep: "sep \<notin> set s \<Longrightarrow> split_acc sep cur s = [rev cur @ s]"
  by (induction s arbitrary: cur) auto

lemma split_acc_first:
  "sep \<notin> set a \<Longrightarrow> split_acc sep cur (a @ sep # rest) = (rev cur @ a) # split_acc sep [] rest"
  by (induction a arbitrary: cur) auto

lemma str_int_no_underscore: "CHR ''_'' \<notin> set (str_int t)"
  using str_int_chars[of "CHR ''_''" t] isdigit_not_sign[of "CHR ''_''"] by auto

lemma str_int_no_dot: "CHR ''.'' \<notin> set (str_int t)"
  using str_int_chars[of "CHR ''.''" t] by (auto simp: py_isdigit_def)

lemma split_checkpoint_name:
  "py_split (CHR ''_'') (checkpoint_name t) = [''invoice'', ''tracker'', str_int t @ ''.pkl'']"
proof -
  have "CHR ''_'' \<notin> set (str_int t @ ''.pkl'')" using str_int_no_underscore[of t] by simp
  from split_acc_nosep[OF this, of "[]"] show ?thesis
    by (simp add: py_split_def checkpoint_name_def)
qed

lemma split_dot_part:
  "py_split (CHR ''.'') (str_int t @ ''.pkl'') = [str_int t, ''pkl'']"
proof -
  have "CHR ''.'' \<notin> set ''pkl''" by simp
  from split_acc_first[OF str_int_no_dot, where cur = "[]" and rest = "''pkl''" and t1 = t]
    split_acc_nosep[OF this, of "[]"]
  show ?thesis by (simp add: py_split_def)
qed

lemma checkpoint_id_name: "checkpoint_id (checkpoint_name t) = Inr t"
  by (simp add: checkpoint_id_def bind_err_def py_index_def split_checkpoint_name split_dot_part
      int_of_str_str_int)

lemma checkpoint_name_inj:
  assumes "checkpoint_name a = checkpoint_name b"
  shows "a = b"
proof -
  have "checkpoint_id (checkpoint_name a) = checkpoint_id (checkpoint_name b)"
    by (simp only: assms)
  then show ?thesis by (simp add: checkpoint_id_name)
qed

lemma startswith_append: "startswith (p @ r) p"
  by (simp add: startswith_def)

lemma endswith_append: "endswith (a @ p) p"
  by (simp add: endswith_def)

lemma is_checkpoint_file_name: "is_checkpoint_file (checkpoint_name t)"
  unfolding is_checkpoint_file_def checkpoint_name_def
  using startswith_append[of "''invoice_tracker_''" "str_int t @ ''.pkl''"]
    endswith_append[of "''invoice_tracker_'' @ str_int t" "''.pkl''"]
  by (simp only: append_assoc simp_thms)

lemma keys_of_total:
  "\<forall>x \<in> set xs. key x = Inr (k x) \<Longrightarrow> keys_of key xs = Inr (map (\<lambda>x. (x, k x)) xs)"
  by (induction xs) (auto simp: bind_err_def)

lemma first_max_unique:
  assumes "\<exists>p \<in> set (best # xks). fst p = x"
    and "\<forall>p \<in> set (best # xks). if fst p = x then snd p = kx else snd p < kx"
  shows "first_max best xks = x"
  using assms
proof (induction xks arbitrary: best)
  case Nil
  then show ?case by simp
next
  case (Cons xk xks)
  let ?b = "if snd best < snd xk then xk else best"
  have 1: "\<exists>p \<in> set (?b # xks). fst p = x"
    using Cons.prems by (auto split: if_splits)
  have 2: "\<forall>p \<in> set (?b # xks). if fst p = x then snd p = kx else snd p < kx"
    using Cons.prems by auto
  from Cons.IH[OF 1 2] show ?case by simp
qed

lemma py_max_unique:
  assumes "xs \<noteq> []" and "x \<in> set xs" and "\<forall>y \<in> set xs. key y = Inr (k y)"
    and "\<forall>y \<in> set xs. y \<noteq> x \<longrightarrow> k y < k x"
  shows "py_max key xs = Inr x"
proof -
  from assms(1) obtain y ys where xs: "xs = y # ys" by (cases xs) auto
  have "first_max (y, k y) (map (\<lambda>x. (x, k x)) ys) = x"
    using assms(2,4) unfolding xs by (intro first_max_unique[where kx = "k x"]) auto
  with keys_of_total[OF assms(3)] show ?thesis
    by (simp add: py_max_def bind_err_def xs)
qed

lemma map_fst_write_file:
  "map fst (write_file name c d) = (if name \<in> fst ` set d then map fst d else map fst d @ [name])"
  by (auto simp: write_file_def split: prod.splits)

lemma map_of_write_file: "map_of (write_file name c d) name = Some c"
proof (cases "name \<in> fst ` set d")
  case True
  then have "map_of (map (\<lambda>(n, x). if n = name then (n, c) else (n, x)) d) name = Some c"
    by (induction d) (auto split: prod.splits)
  with True show ?thesis by (simp add: write_file_def)
next
  case False
  then have "map_of d name = None" by (simp add: map_of_eq_None_iff)
  with False show ?thesis by (simp add: write_file_def map_add_def)
qed

lemma set_files_write_file:
  "fst ` set (write_file name c d) = insert name (fst ` set d)"
  using map_fst_write_file[of name c d, THEN arg_cong, of set] by (auto split: if_splits)

lemma load_after_save:
  assumes old: "\<forall>f \<in> fst ` set (case fs of None \<Rightarrow> [] | Some d \<Rightarrow> d).
      is_checkpoint_file f \<longrightarrow> f \<noteq> checkpoint_name now \<longrightarrow> (\<exists>i < now. checkpoint_id f = Inr i)"
  shows "load_tracker_checkpoint (save_tracker_checkpoint now Written trk fs) t0
           = Inr (unpickled trk, True)"
proof -
  let ?d = "case fs of None \<Rightarrow> [] | Some d \<Rightarrow> d"
  let ?name = "checkpoint_name now"
  let ?d' = "write_file ?name (Pickled trk) ?d"
  let ?files = "filter is_checkpoint_file (map fst ?d')"
  define k where "k f = (case checkpoint_id f of Inr i \<Rightarrow> i | Inl e \<Rightarrow> 0)" for f
  have kn: "k ?name = now" by (simp add: k_def checkpoint_id_name)
  have "?name \<in> fst ` set ?d'" by (simp only: set_files_write_file insertI1)
  then have mem: "?name \<in> set ?files" by (simp add: is_checkpoint_file_name)
  have ne: "?files \<noteq> []"
  proof
    assume e: "?files = []"
    from mem show False unfolding e by simp
  qed
  have all: "\<forall>f \<in> set ?files. f \<noteq> ?name \<longrightarrow> (\<exists>i < now. checkpoint_id f = Inr i)"
  proof (intro ballI impI)
    fix f assume "f \<in> set ?files" and n: "f \<noteq> ?name"
    then have c: "is_checkpoint_file f" and "f \<in> fst ` set ?d'" by auto
    with n have "f \<in> fst ` set ?d"
      by (auto simp only: set_files_write_file insert_iff)
    with old c n show "\<exists>i < now. checkpoint_id f = Inr i" by blast
  qed
  have keys: "\<forall>f \<in> set ?files. checkpoint_id f = Inr (k f)"
  proof
    fix f assume f: "f \<in> set ?files"
    show "checkpoint_id f = Inr (k f)"
    proof (cases "f = ?name")
      case True
      then show ?thesis by (simp add: k_def checkpoint_id_name)
    next
      case False
      with all f obtain i where "checkpoint_id f = Inr i" by blast
      then show ?thesis by (simp add: k_def)
    qed
  qed
  have less: "\<forall>f \<in> set ?files. f \<noteq> ?name \<longrightarrow> k f < k ?name"
  proof (intro ballI impI)
    fix f assume "f \<in> set ?files" "f \<noteq> ?name"
    with all obtain i where "i < now" "checkpoint_id f = Inr i" by blast
    then show "k f < k ?name" by (simp add: kn) (simp add: k_def)
  qed
  from py_max_unique[OF ne mem keys less] have "py_max checkpoint_id ?files = Inr ?name" .
  with ne show ?thesis
    by (simp add: load_tracker_checkpoint_def save_tracker_checkpoint_def Let_def bind_err_def
        map_of_write_file)
qed

lemma keys_of_Inr:
  "keys_of key xs = Inr xks \<Longrightarrow> map fst xks = xs \<and> (\<forall>p \<in> set xks. key (fst p) = Inr (snd p))"
  by (induction xs arbitrary: xks) (auto simp: bind_err_def split: sum.splits)

lemma first_max_greatest:
  "\<exists>i. (first_max best xks, i) \<in> set (best # xks) \<and> (\<forall>p \<in> set (best # xks). snd p \<le> i)"
proof (induction xks arbitrary: best)
  case Nil
  show ?case by (cases best) auto
next
  case (Cons xk xks)
  let ?b = "if snd best < snd xk then xk else best"
  from Cons[of ?b] obtain i where "(first_max ?b xks, i) \<in> set (?b # xks)"
    and "\<forall>p \<in> set (?b # xks). snd p \<le> i" by blast
  then show ?case by (intro exI[of _ i]) (auto split: if_splits)
qed

lemma py_max_greatest:
  assumes "py_max key xs = Inr x"
  shows "x \<in> set xs \<and> (\<exists>i. key x = Inr i \<and> (\<forall>y \<in> set xs. \<exists>j \<le> i. key y = Inr j))"
proof -
  from assms obtain xk rest where k: "keys_of key xs = Inr (xk # rest)" and x: "x = first_max xk rest"
    by (auto simp: py_max_def bind_err_def split: sum.splits list.splits)
  from keys_of_Inr[OF k] have m: "map fst (xk # rest) = xs"
    and ks: "\<forall>p \<in> set (xk # rest). key (fst p) = Inr (snd p)" by auto
  from first_max_greatest[of xk rest] x obtain i where i: "(x, i) \<in> set (xk # rest)"
    and g: "\<forall>p \<in> set (xk # rest). snd p \<le> i" by blast
  from i have "x \<in> fst ` set (xk # rest)" by (rule rev_image_eqI) simp
  with m have "x \<in> set xs" by (simp only: set_map[symmetric])
  moreover from i ks have "key x = Inr i" by fastforce
  moreover have "\<forall>y \<in> set xs. \<exists>j \<le> i. key y = Inr j"
  proof
    fix y assume "y \<in> set xs"
    with m have "y \<in> fst ` set (xk # rest)" by (simp only: set_map[symmetric])
    then obtain p where p: "y = fst p" "p \<in> set (xk # rest)" by (rule imageE)
    with ks g show "\<exists>j \<le> i. key y = Inr j" by (intro exI[of _ "snd p"]) auto
  qed
  ultimately show ?thesis by blast
qed

lemma load_selects_greatest:
  assumes "load_tracker_checkpoint (Some d) t0 = Inr (t, True)"
  shows "\<exists>f i p. map_of d f = Some (Pickled p) \<and> t = unpickled p \<and> is_checkpoint_file f \<and>
     checkpoint_id f = Inr i \<and>
     (\<forall>g \<in> fst ` set d. is_checkpoint_file g \<longrightarrow> (\<exists>j \<le> i. checkpoint_id g = Inr j))"
proof -
  let ?files = "filter is_checkpoint_file (map fst d)"
  from assms obtain f p where m: "py_max checkpoint_id ?files = Inr f"
    and c: "map_of d f = Some (Pickled p)" and t: "t = unpickled p"
    by (auto simp: load_tracker_checkpoint_def Let_def bind_err_def
        split: if_splits sum.splits option.splits file_content.splits)
  from py_max_greatest[OF m] obtain i where "f \<in> set ?files" "checkpoint_id f = Inr i"
    "\<forall>y \<in> set ?files. \<exists>j \<le> i. checkpoint_id y = Inr j" by blast
  with c t show ?thesis by (intro exI[of _ f] exI[of _ i] exI[of _ p]) auto
qed

lemma unpickled_no_nan:
  assumes "\<forall>k \<in> dom trk. \<not> has_nan k"
  shows "unpickled trk = trk"
proof (rule ext)
  fix k
  show "unpickled trk k = trk k"
  proof (cases "has_nan k")
    case True
    with assms have "k \<notin> dom trk" by blast
    with True show ?thesis by (simp add: unpickled_def domIff)
  next
    case False
    then show ?thesis by (simp add: unpickled_def)
  qed
qed

lemma dom_unpickled: "dom (unpickled trk) = {k \<in> dom trk. \<not> has_nan k}"
  by (auto simp: unpickled_def split: if_splits)

text \<open>
  Claim C7, as the code has it. Let the write succeed and every other checkpoint file in
  the directory have an identifier below the time of the save. Then loading after saving
  gives the saved tracker without the entries whose key has a NaN (such as the key that a
  row with no date claims): for a tracker with no such key it is the saved tracker, so the
  membership set is the same. Loading returns False and leaves the tracker as it is when
  the directory is absent or holds no checkpoint file. Whenever loading succeeds, the
  tracker loaded comes from a checkpoint file whose identifier is the greatest among the
  checkpoint files of the directory.
\<close>

theorem checkpoint_round_trip:
  "((\<forall>f \<in> fst ` set (case fs of None \<Rightarrow> [] | Some d \<Rightarrow> d).
       is_checkpoint_file f \<longrightarrow> f \<noteq> checkpoint_name now \<longrightarrow> (\<exists>i < now. checkpoint_id f = Inr i)) \<longrightarrow>
      load_tracker_checkpoint (save_tracker_checkpoint now Written trk fs) t0
        = Inr (unpickled trk, True) \<and>
      dom (unpickled trk) = {k \<in> dom trk. \<not> has_nan k} \<and>
      ((\<forall>k \<in> dom trk. \<not> has_nan k) \<longrightarrow>
         load_tracker_checkpoint (save_tracker_checkpoint now Written trk fs) t0 = Inr (trk, True))) \<and>
   load_tracker_checkpoint None t0 = Inr (t0, False) \<and>
   (filter is_checkpoint_file (map fst d) = [] \<longrightarrow>
      load_tracker_checkpoint (Some d) t0 = Inr (t0, False)) \<and>
   (load_tracker_checkpoint (Some d) t0 = Inr (t, True) \<longrightarrow>
      (\<exists>f i p. map_of d f = Some (Pickled p) \<and> t = unpickled p \<and> is_checkpoint_file f \<and>
         checkpoint_id f = Inr i \<and>
         (\<forall>g \<in> fst ` set d. is_checkpoint_file g \<longrightarrow> (\<exists>j \<le> i. checkpoint_id g = Inr j))))"
proof (intro conjI impI)
  assume a: "\<forall>f \<in> fst ` set (case fs of None \<Rightarrow> [] | Some d \<Rightarrow> d).
       is_checkpoint_file f \<longrightarrow> f \<noteq> checkpoint_name now \<longrightarrow> (\<exists>i < now. checkpoint_id f = Inr i)"
  then show l: "load_tracker_checkpoint (save_tracker_checkpoint now Written trk fs) t0
      = Inr (unpickled trk, True)"
    by (rule load_after_save)
  show "dom (unpickled trk) = {k \<in> dom trk. \<not> has_nan k}" by (rule dom_unpickled)
  assume "\<forall>k \<in> dom trk. \<not> has_nan k"
  then have "unpickled trk = trk" by (rule unpickled_no_nan)
  with l show "load_tracker_checkpoint (save_tracker_checkpoint now Written trk fs) t0 = Inr (trk, True)"
    by simp
next
  show "load_tracker_checkpoint None t0 = Inr (t0, False)"
    by (simp add: load_tracker_checkpoint_def)
next
  assume "filter is_checkpoint_file (map fst d) = []"
  then show "load_tracker_checkpoint (Some d) t0 = Inr (t0, False)"
    by (simp add: load_tracker_checkpoint_def)
next
  assume "load_tracker_checkpoint (Some d) t0 = Inr (t, True)"
  then show "\<exists>f i p. map_of d f = Some (Pickled p) \<and> t = unpickled p \<and> is_checkpoint_file f \<and>
         checkpoint_id f = Inr i \<and>
         (\<forall>g \<in> fst ` set d. is_checkpoint_file g \<longrightarrow> (\<exists>j \<le> i. checkpoint_id g = Inr j))"
    by (rule load_selects_greatest)
qed

text \<open>
  The theorem on a directory with an older checkpoint and a file that is no checkpoint,
  saving at time 5 a tracker whose one key has no NaN.
\<close>

theorem checkpoint_round_trip_witness:
  "checkpoint_id ''invoice_tracker_3.pkl'' = Inr 3 \<and>
   \<not> is_checkpoint_file ''notes.txt'' \<and>
   dom sample_tracker = {(Str ''INV100'', FloatV (Fin 2020))} \<and>
   \<not> has_nan (Str ''INV100'', FloatV (Fin 2020)) \<and>
   load_tracker_checkpoint (save_tracker_checkpoint 5 Written sample_tracker (Some sample_directory))
       Map.empty = Inr (sample_tracker, True) \<and>
   load_tracker_checkpoint None Map.empty = Inr (Map.empty, False) \<and>
   filter is_checkpoint_file (map fst [(''notes.txt'', Corrupt)]) = [] \<and>
   load_tracker_checkpoint (Some [(''notes.txt'', Corrupt)]) Map.empty = Inr (Map.empty, False) \<and>
   (\<exists>f i p. map_of (write_file (checkpoint_name 5) (Pickled sample_tracker) sample_directory) f
              = Some (Pickled p) \<and> sample_tracker = unpickled p \<and>
          is_checkpoint_file f \<and> checkpoint_id f = Inr i)"
proof -
  let ?d' = "write_file (checkpoint_name 5) (Pickled sample_tracker) sample_directory"
  have a: "checkpoint_id ''invoice_tracker_3.pkl'' = Inr 3" by code_simp
  have b: "\<not> is_checkpoint_file ''notes.txt''" by code_simp
  have dm: "dom sample_tracker = {(Str ''INV100'', FloatV (Fin 2020))}"
    by (simp add: sample_tracker_def)
  have nn: "\<not> has_nan (Str ''INV100'', FloatV (Fin 2020))" by (simp add: has_nan_def)
  have nonan: "\<forall>k \<in> dom sample_tracker. \<not> has_nan k"
    unfolding dm using nn by simp
  have hyp: "\<forall>f \<in> fst ` set (case Some sample_directory of None \<Rightarrow> [] | Some d \<Rightarrow> d).
       is_checkpoint_file f \<longrightarrow> f \<noteq> checkpoint_name 5 \<longrightarrow> (\<exists>i < 5. checkpoint_id f = Inr i)"
    using a b by (simp add: sample_directory_def)
  have e: "filter is_checkpoint_file (map fst [(''notes.txt'', Corrupt)]) = []"
    using b by simp
  have s: "save_tracker_checkpoint 5 Written sample_tracker (Some sample_directory) = Some ?d'"
    by (simp add: save_tracker_checkpoint_def)
  note T1 = checkpoint_round_trip[where fs = "Some sample_directory" and now = 5
      and trk = sample_tracker and ?t0.0 = Map.empty and d = "[(''notes.txt'', Corrupt)]"]
  note T1a = T1[THEN conjunct1, THEN mp, OF hyp]
  note r = T1a[THEN conjunct2, THEN conjunct2, THEN mp, OF nonan]
  note n = T1[THEN conjunct2, THEN conjunct1]
  note m = T1[THEN conjunct2, THEN conjunct2, THEN conjunct1, THEN mp, OF e]
  have l: "load_tracker_checkpoint (Some ?d') Map.empty = Inr (sample_tracker, True)"
    using r unfolding s .
  note T2 = checkpoint_round_trip[where ?t0.0 = Map.empty and d = ?d' and t = sample_tracker]
  note x = T2[THEN conjunct2, THEN conjunct2, THEN conjunct2, THEN mp, OF l]
  from x obtain f i p where "map_of ?d' f = Some (Pickled p)" "sample_tracker = unpickled p"
    "is_checkpoint_file f" "checkpoint_id f = Inr i" by (elim exE conjE)
  then have y: "\<exists>f i p. map_of ?d' f = Some (Pickled p) \<and> sample_tracker = unpickled p \<and>
          is_checkpoint_file f \<and> checkpoint_id f = Inr i"
    by (intro exI conjI)
  show ?thesis by (intro conjI) (rule a b dm nn r n e m y)+
qed

text \<open>
  Claim C7 as stated fails. A row with no date claims the key of its invoice with the
  year NaN. The tracker that \<^verbatim>\<open>process_chunk\<close> leaves is saved, in a directory that did
  not exist, and loaded: the load succeeds, and the key is in the saved tracker and not
  in the loaded one.
\<close>

theorem checkpoint_round_trip_counterexample:
  "fst (process_chunk Map.empty sample_cache [sample_row\<lparr>Date := NaT\<rparr>])
     (Str ''INV100'', FloatV NaN) = Some True \<and>
   (case load_tracker_checkpoint
           (save_tracker_checkpoint 5 Written
              (fst (process_chunk Map.empty sample_cache [sample_row\<lparr>Date := NaT\<rparr>])) None)
           Map.empty of
      Inr (loaded, flag) \<Rightarrow> flag \<and> loaded (Str ''INV100'', FloatV NaN) = None
    | Inl e \<Rightarrow> False)"
  by code_simp

section \<open>Properties of the product records\<close>

lemma int_of_float_nonneg: "int_of_float f = Inr n \<Longrightarrow> \<not> le_zero f \<Longrightarrow> 0 \<le> n"
  by (auto simp: int_of_float_def le_zero_def split: pyfloat.splits if_splits)

lemma fix_volume_750:
  assumes "isna (P_Bottle_Volume_ml r) \<or> cell_le_zero (P_Bottle_Volume_ml r) = Inr True"
    and "process_all_products [r] = Inr [p]"
  shows "bottle_volume_ml p = 750"
proof -
  let ?r1 = "r\<lparr>P_Category := fillna (IntV 0) (P_Category r),
               P_Category_Name := fillna (Str ''Uncategorized'') (P_Category_Name r),
               P_Pack := fillna (IntV 1) (P_Pack r),
               P_Bottle_Volume_ml := fillna (IntV 750) (P_Bottle_Volume_ml r)\<rparr>"
  from assms(1) have "cell_le_zero (P_Bottle_Volume_ml ?r1) = Inr True \<or> P_Bottle_Volume_ml ?r1 = IntV 750"
    by (auto simp: fillna_def)
  then have "\<exists>r2. fix_volume ?r1 = Inr r2 \<and> P_Bottle_Volume_ml r2 = IntV 750"
    by (auto simp: fix_volume_def bind_err_def cell_le_zero_def)
  then obtain r2 where f: "fix_volume ?r1 = Inr r2" and v: "P_Bottle_Volume_ml r2 = IntV 750" by blast
  from assms(2) f have "product_rows [r2] = Inr [p]"
    by (simp add: process_all_products_def bind_err_def)
  then have "product_of_row r2 = Inr p"
    by (auto simp: bind_err_def split: sum.splits if_splits)
  with v show ?thesis
    by (auto simp: product_of_row_def bind_err_def int_float_def py_float_def int_of_float_def
        split: sum.splits)
qed

text \<open>
  Claim C8 at a product with \<^verbatim>\<open>Bottle Volume (ml) = 0.5\<close>: the value is neither missing nor
  \<open>\<le> 0\<close>, so it is kept, and \<^verbatim>\<open>int(float(...))\<close> makes it 0, against the comment
  ``Will now never be 0'' on that line.
\<close>

theorem process_all_products_truncates_volume:
  "process_all_products [sample_product\<lparr>P_Bottle_Volume_ml := FloatV (Fin (1 / 2))\<rparr>]
     = Inr [sample_product_record\<lparr>bottle_volume_ml := 0\<rparr>]"
  by code_simp

lemma process_all_products_sample:
  "process_all_products [sample_product, sample_product\<lparr>P_Bottle_Volume_ml := FloatV NaN\<rparr>,
       sample_product\<lparr>P_Bottle_Volume_ml := IntV 0\<rparr>, sample_product\<lparr>P_Bottle_Volume_ml := FloatV (Fin (- 3))\<rparr>]
     = Inr [sample_product_record, sample_product_record, sample_product_record, sample_product_record]"
  by code_simp

end
